theory Spec2Isabelle
  imports Main "HOL-Library.AList"
begin

section \<open>The element cache of openslides/utils/cache.py\<close>

text \<open>
  The class \<^verbatim>\<open>ElementCache\<close> is embedded as functions over a record holding
  the object's fields. Python dictionaries are association lists in insertion order,
  updated in place with \<open>AList.update\<close> (an existing key keeps its position, a new key
  goes to the end, as in Python). Exceptions are values of the type \<open>error\<close>.
  The \<^verbatim>\<open>async\<close> methods are run one after another: nothing else touches the
  backend between two steps of one method.
\<close>

subsection \<open>Documents and their serialised form\<close>

text \<open>
  A JSON-compatible value. An element is a \<open>JObj\<close> whose keys are distinct.
\<close>

datatype json =
    JNull
  | JBool bool
  | JInt int
  | JStr string
  | JArr "json list"
  | JObj "(string \<times> json) list"

text \<open>
  The \<^verbatim>\<open>json\<close> library is not part of the repository. The text it prints
  is kept abstract: \<open>Dumps j\<close> is the text \<^verbatim>\<open>json.dumps(j)\<close>, and
  \<^verbatim>\<open>json.loads\<close> reads it back. The stores hold such texts only.
\<close>

datatype jsontext = Dumps json

definition json_dumps :: "json \<Rightarrow> jsontext" where
  "json_dumps j = Dumps j"

fun json_loads :: "jsontext \<Rightarrow> json" where
  "json_loads (Dumps j) = j"

text \<open>Python's truth value of an object, as \<^verbatim>\<open>if data:\<close> tests it.\<close>

fun truthy :: "json \<Rightarrow> bool" where
  "truthy JNull = False"
| "truthy (JBool b) = b"
| "truthy (JInt n) = (n \<noteq> 0)"
| "truthy (JStr s) = (s \<noteq> [])"
| "truthy (JArr xs) = (xs \<noteq> [])"
| "truthy (JObj kvs) = (kvs \<noteq> [])"

subsection \<open>Exceptions\<close>

datatype reason =
    EnsureBeforeChanging
  | EnsureBeforeUpdating
  | ChangeIdTooLow int int
  | NoKnownChangeId

datatype error =
    RuntimeError reason
  | KeyError string
  | TypeError
  | ValueError
  | Raised string

text \<open>
  \<open>Raised\<close> is an exception of a collaborator (a \<^verbatim>\<open>Cachable\<close>) that is
  not a \<^verbatim>\<open>RuntimeError\<close>.
\<close>

fun is_RuntimeError :: "error \<Rightarrow> bool" where
  "is_RuntimeError (RuntimeError r) = True"
| "is_RuntimeError e = False"

subsection \<open>Element ids\<close>

definition digit_char :: "nat \<Rightarrow> char" where
  "digit_char d = ''0123456789'' ! (d mod 10)"

fun str_nat :: "nat \<Rightarrow> string" where
  "str_nat n = (if n < 10 then [digit_char n] else str_nat (n div 10) @ [digit_char n])"

declare str_nat.simps [simp del]

text \<open>Python's \<^verbatim>\<open>str\<close> of an integer.\<close>

definition str_int :: "int \<Rightarrow> string" where
  "str_int i = (if i < 0 then CHR ''-'' # str_nat (nat (- i)) else str_nat (nat i))"

text \<open>
  Modelled from the spec: \<^verbatim>\<open>get_element_id\<close> of utils.py, which is not among
  the sources. The spec gives the canonical serialised form
  \<^verbatim>\<open>"{collection}:{id}"\<close>.
\<close>

definition get_element_id :: "string \<Rightarrow> int \<Rightarrow> string" where
  "get_element_id collection_string i = collection_string @ '':'' @ str_int i"

definition digit_value :: "char \<Rightarrow> nat option" where
  "digit_value c = map_of (zip ''0123456789'' [0, 1, 2, 3, 4, 5, 6, 7, 8, 9]) c"

fun nat_of_digits :: "nat \<Rightarrow> string \<Rightarrow> nat option" where
  "nat_of_digits acc [] = Some acc"
| "nat_of_digits acc (c # cs) =
     (case digit_value c of
        None \<Rightarrow> None
      | Some d \<Rightarrow> nat_of_digits (10 * acc + d) cs)"

text \<open>The integer a decimal numeral denotes: an optional minus sign, then digits.\<close>

definition int_of_str :: "string \<Rightarrow> int option" where
  "int_of_str s =
     (case s of
        [] \<Rightarrow> None
      | c # cs \<Rightarrow>
          if c = CHR ''-''
          then (if cs = [] then None else map_option (\<lambda>n. - int n) (nat_of_digits 0 cs))
          else map_option int (nat_of_digits 0 s))"

text \<open>
  Modelled from the spec: \<^verbatim>\<open>split_element_id\<close> of utils.py, which is not among
  the sources. It reads the canonical form back: the collection is the text before the
  last separator, the id the integer after it. An id that has no separator, or no
  integer after it, is a \<^verbatim>\<open>ValueError\<close>.
\<close>

definition split_element_id :: "string \<Rightarrow> error + (string \<times> int)" where
  "split_element_id element_id =
     (let r = rev element_id;
          id_part = rev (takeWhile (\<lambda>c. c \<noteq> CHR '':'') r);
          rest = dropWhile (\<lambda>c. c \<noteq> CHR '':'') r
      in if rest = [] then Inl ValueError
         else (case int_of_str id_part of
                 None \<Rightarrow> Inl ValueError
               | Some i \<Rightarrow> Inr (rev (tl rest), i)))"

text \<open>\<^verbatim>\<open>element["id"]\<close>: the id of an element. The ids are integers.\<close>

fun element_id_of :: "json \<Rightarrow> error + int" where
  "element_id_of (JObj kvs) =
     (case map_of kvs ''id'' of
        None \<Rightarrow> Inl (KeyError ''id'')
      | Some (JInt i) \<Rightarrow> Inr i
      | Some _ \<Rightarrow> Inl TypeError)"
| "element_id_of _ = Inl TypeError"

text \<open>The ids of a list of elements, in order; the first failure is raised.\<close>

fun element_ids :: "json list \<Rightarrow> error + int list" where
  "element_ids [] = Inr []"
| "element_ids (e # es) =
     (case element_id_of e of
        Inl err \<Rightarrow> Inl err
      | Inr i \<Rightarrow> (case element_ids es of Inl err \<Rightarrow> Inl err | Inr is \<Rightarrow> Inr (i # is)))"

subsection \<open>The collaborators\<close>

text \<open>
  A \<^verbatim>\<open>Cachable\<close>: the elements of one collection and its permission filter.
  Both are supplied from outside and may raise.
\<close>

record cachable =
  get_elements :: "error + json list"
  restrict_elements :: "int \<Rightarrow> json list \<Rightarrow> error + json list"

text \<open>
  The cache provider's class is not among the sources; the cache is written against its
  interface, so the operations are a parameter: a record of functions over the backend's
  state \<open>'s\<close>. The three operations whose names the cache's own methods also bear carry the
  prefix \<open>provider_\<close>. \<^verbatim>\<open>add_elements\<close> takes its key/value pairs flattened in the
  source (\<^verbatim>\<open>[key, value, key, value, ...]\<close>); here they stay paired.
  A user id of \<open>None\<close> is the full-data namespace. The spec's contract gives no
  operation a failure, so the operations return values and raise nothing.
\<close>

record 's provider =
  data_exists :: "int option \<Rightarrow> 's \<Rightarrow> bool"
  set_lock :: "string \<Rightarrow> 's \<Rightarrow> bool \<times> 's"
  get_lock :: "string \<Rightarrow> 's \<Rightarrow> bool"
  del_lock :: "string \<Rightarrow> 's \<Rightarrow> 's"
  reset_full_cache :: "(string \<times> jsontext) list \<Rightarrow> 's \<Rightarrow> 's"
  add_elements :: "(string \<times> jsontext) list \<Rightarrow> 's \<Rightarrow> 's"
  del_elements :: "string list \<Rightarrow> int option \<Rightarrow> 's \<Rightarrow> 's"
  add_changed_elements :: "int \<Rightarrow> string list \<Rightarrow> 's \<Rightarrow> int \<times> 's"
  get_all_data :: "int option \<Rightarrow> 's \<Rightarrow> (string \<times> jsontext) list"
  get_data_since ::
    "int \<Rightarrow> int option \<Rightarrow> int \<Rightarrow> 's \<Rightarrow> (string \<times> jsontext list) list \<times> string list"
  del_restricted_data :: "int \<Rightarrow> 's \<Rightarrow> 's"
  get_change_id_user :: "int \<Rightarrow> 's \<Rightarrow> int option"
  provider_update_restricted_data :: "int \<Rightarrow> (string \<times> jsontext) list \<Rightarrow> 's \<Rightarrow> 's"
  provider_get_current_change_id :: "'s \<Rightarrow> (string \<times> int) list"
  provider_get_lowest_change_id :: "'s \<Rightarrow> int option"

subsection \<open>The cache object\<close>

text \<open>
  The fields of \<^verbatim>\<open>ElementCache\<close>, and \<open>backend\<close>: the state the provider
  object holds. \<open>cachables\<close> is the dictionary the property of that name builds on first
  use.
\<close>

record 's element_cache =
  use_restricted_data_cache :: bool
  cache_provider :: "'s provider"
  cachables :: "(string \<times> cachable) list"
  start_time :: int
  ensured :: bool
  backend :: 's

text \<open>\<^verbatim>\<open>out[key].append(x)\<close> on a \<^verbatim>\<open>defaultdict(list)\<close>.\<close>

definition dict_append :: "'k \<Rightarrow> 'v \<Rightarrow> ('k \<times> 'v list) list \<Rightarrow> ('k \<times> 'v list) list" where
  "dict_append k x d =
     AList.update k ((case map_of d k of None \<Rightarrow> [] | Some xs \<Rightarrow> xs) @ [x]) d"

text \<open>\<^verbatim>\<open>out[key][i] = x\<close> on a \<^verbatim>\<open>defaultdict(dict)\<close>.\<close>

definition dict_set2 ::
  "'k \<Rightarrow> 'i \<Rightarrow> 'v \<Rightarrow> ('k \<times> ('i \<times> 'v) list) list \<Rightarrow> ('k \<times> ('i \<times> 'v) list) list" where
  "dict_set2 k i x d =
     AList.update k (AList.update i x (case map_of d k of None \<Rightarrow> [] | Some m \<Rightarrow> m)) d"

subsection \<open>Change ids\<close>

definition get_current_change_id :: "'s element_cache \<Rightarrow> int" where
  "get_current_change_id self =
     (case provider_get_current_change_id (cache_provider self) (backend self) of
        [] \<Rightarrow> start_time self
      | (member, score) # _ \<Rightarrow> score)"

text \<open>\<^verbatim>\<open>if not value\<close> holds for \<^verbatim>\<open>None\<close> and for \<open>0\<close>.\<close>

definition get_lowest_change_id :: "'s element_cache \<Rightarrow> error + int" where
  "get_lowest_change_id self =
     (case provider_get_lowest_change_id (cache_provider self) (backend self) of
        None \<Rightarrow> Inl (RuntimeError NoKnownChangeId)
      | Some v \<Rightarrow> if v = 0 then Inl (RuntimeError NoKnownChangeId) else Inr v)"

subsection \<open>Writes\<close>

text \<open>
  The loop of \<^verbatim>\<open>change_elements\<close> over \<^verbatim>\<open>elements.items()\<close>, with the two
  lists it fills.
\<close>

fun partition_elements ::
  "(string \<times> json option) list \<Rightarrow> (string \<times> jsontext) list \<Rightarrow> string list \<Rightarrow>
     (string \<times> jsontext) list \<times> string list" where
  "partition_elements [] changed_elements deleted_elements =
     (changed_elements, deleted_elements)"
| "partition_elements ((element_id, data) # rest) changed_elements deleted_elements =
     (case data of
        Some d \<Rightarrow>
          if truthy d
          then partition_elements rest
                 (changed_elements @ [(element_id, json_dumps d)]) deleted_elements
          else partition_elements rest changed_elements (deleted_elements @ [element_id])
      | None \<Rightarrow> partition_elements rest changed_elements (deleted_elements @ [element_id]))"

definition change_elements ::
  "'s element_cache \<Rightarrow> (string \<times> json option) list \<Rightarrow> (error + int) \<times> 's element_cache" where
  "change_elements self elements =
     (if \<not> ensured self then (Inl (RuntimeError EnsureBeforeChanging), self)
      else
        let P = cache_provider self;
            (changed_elements, deleted_elements) = partition_elements elements [] [];
            s1 = (if changed_elements \<noteq> [] then add_elements P changed_elements (backend self)
                  else backend self);
            s2 = (if deleted_elements \<noteq> [] then del_elements P deleted_elements None s1
                  else s1);
            (change_id, s3) = add_changed_elements P (start_time self + 1) (map fst elements) s2
        in (Inr change_id, self\<lparr>backend := s3\<rparr>))"

subsection \<open>Full-data reads\<close>

fun ordered_loop ::
  "(string \<times> jsontext) list \<Rightarrow> (string \<times> (int \<times> json) list) list \<Rightarrow>
     error + (string \<times> (int \<times> json) list) list" where
  "ordered_loop [] out = Inr out"
| "ordered_loop ((element_id, data) # rest) out =
     (case split_element_id element_id of
        Inl e \<Rightarrow> Inl e
      | Inr (collection_string, i) \<Rightarrow>
          ordered_loop rest (dict_set2 collection_string i (json_loads data) out))"

definition get_all_full_data_ordered ::
  "'s element_cache \<Rightarrow> error + (string \<times> (int \<times> json) list) list" where
  "get_all_full_data_ordered self =
     ordered_loop (get_all_data (cache_provider self) None (backend self)) []"

fun group_loop ::
  "(string \<times> (int \<times> json) list) list \<Rightarrow> (string \<times> json list) list \<Rightarrow>
     (string \<times> json list) list" where
  "group_loop [] out = out"
| "group_loop ((collection_string, collection_data) # rest) out =
     group_loop rest (fold (dict_append collection_string) (map snd collection_data) out)"

definition get_all_full_data :: "'s element_cache \<Rightarrow> error + (string \<times> json list) list" where
  "get_all_full_data self =
     (case get_all_full_data_ordered self of
        Inl e \<Rightarrow> Inl e
      | Inr all_data \<Rightarrow> Inr (group_loop all_data []))"

text \<open>The dictionary comprehension that decodes what \<^verbatim>\<open>get_data_since\<close> returns.\<close>

definition decode_changed :: "(string \<times> jsontext list) list \<Rightarrow> (string \<times> json list) list" where
  "decode_changed raw_changed_elements =
     map (\<lambda>(collection_string, value_list). (collection_string, map json_loads value_list))
       raw_changed_elements"

definition get_full_data ::
  "'s element_cache \<Rightarrow> int \<Rightarrow> int \<Rightarrow> error + ((string \<times> json list) list \<times> string list)" where
  "get_full_data self change_id max_change_id =
     (if change_id = 0
      then (case get_all_full_data self of
              Inl e \<Rightarrow> Inl e
            | Inr all_data \<Rightarrow> Inr (all_data, []))
      else
        (case get_lowest_change_id self of
           Inl e \<Rightarrow> Inl e
         | Inr lowest_change_id \<Rightarrow>
             if change_id < lowest_change_id
             then Inl (RuntimeError (ChangeIdTooLow change_id lowest_change_id))
             else
               (case get_data_since (cache_provider self) change_id None max_change_id
                       (backend self) of
                  (raw_changed_elements, deleted_elements) \<Rightarrow>
                    Inr (decode_changed raw_changed_elements, deleted_elements))))"

subsection \<open>Building the cache\<close>

text \<open>
  The polling loop \<^verbatim>\<open>while get_lock(lock_name): sleep(0.01)\<close>. Nothing else runs
  between two polls, so the loop ends only when the lock is free; \<open>None\<close> is the loop
  that never ends.
\<close>

partial_function (option) wait_for_lock :: "'s provider \<Rightarrow> string \<Rightarrow> 's \<Rightarrow> unit option" where
  "wait_for_lock P lock_name s =
     (if get_lock P lock_name s then wait_for_lock P lock_name s else Some ())"

declare wait_for_lock.simps [code]

text \<open>
  The loop \<^verbatim>\<open>for element in ...: mapping.update({get_element_id(collection_string,
  element["id"]): json.dumps(element)})\<close>, in \<^verbatim>\<open>ensure_cache\<close> and in
  \<^verbatim>\<open>update_restricted_data\<close>.
\<close>

fun add_to_mapping ::
  "string \<Rightarrow> json list \<Rightarrow> (string \<times> jsontext) list \<Rightarrow> error + (string \<times> jsontext) list" where
  "add_to_mapping collection_string [] mapping = Inr mapping"
| "add_to_mapping collection_string (element # rest) mapping =
     (case element_id_of element of
        Inl e \<Rightarrow> Inl e
      | Inr i \<Rightarrow>
          add_to_mapping collection_string rest
            (AList.update (get_element_id collection_string i) (json_dumps element) mapping))"

fun build_mapping ::
  "(string \<times> cachable) list \<Rightarrow> (string \<times> jsontext) list \<Rightarrow> error + (string \<times> jsontext) list" where
  "build_mapping [] mapping = Inr mapping"
| "build_mapping ((collection_string, c) # rest) mapping =
     (case get_elements c of
        Inl e \<Rightarrow> Inl e
      | Inr elements \<Rightarrow>
          (case add_to_mapping collection_string elements mapping of
             Inl e \<Rightarrow> Inl e
           | Inr mapping' \<Rightarrow> build_mapping rest mapping'))"

text \<open>
  \<^verbatim>\<open>ensure_cache\<close>. The \<^verbatim>\<open>finally\<close> clause releases the lock on both ways
  out of the \<^verbatim>\<open>try\<close> block; \<^verbatim>\<open>self.ensured\<close> is set only when no
  exception left the block.
\<close>

definition ensure_cache ::
  "'s element_cache \<Rightarrow> bool \<Rightarrow> ((error + unit) \<times> 's element_cache) option" where
  "ensure_cache self reset =
     (let P = cache_provider self;
          cache_exists = data_exists P None (backend self)
      in if reset \<or> \<not> cache_exists
         then
           (case set_lock P ''ensure_cache'' (backend self) of
              (True, s1) \<Rightarrow>
                (case build_mapping (cachables self) [] of
                   Inl e \<Rightarrow> Some (Inl e, self\<lparr>backend := del_lock P ''ensure_cache'' s1\<rparr>)
                 | Inr mapping \<Rightarrow>
                     Some (Inr (),
                       self\<lparr>ensured := True,
                            backend := del_lock P ''ensure_cache'' (reset_full_cache P mapping s1)\<rparr>))
            | (False, s1) \<Rightarrow>
                (case wait_for_lock P ''ensure_cache'' s1 of
                   None \<Rightarrow> None
                 | Some u \<Rightarrow> Some (Inr (), self\<lparr>ensured := True, backend := s1\<rparr>)))
         else Some (Inr (), self\<lparr>ensured := True\<rparr>))"

subsection \<open>Refreshing the restricted data of a user\<close>

text \<open>
  One round of the loop over \<^verbatim>\<open>full_data_elements.items()\<close>. The ids the user
  cannot see are appended in the order of their first occurrence in \<open>full_data\<close> (the
  source iterates a set, whose order is not fixed).
\<close>

definition restrict_collection ::
  "'s element_cache \<Rightarrow> int \<Rightarrow> string \<Rightarrow> json list \<Rightarrow> (string \<times> jsontext) list \<Rightarrow> string list \<Rightarrow>
     error + ((string \<times> jsontext) list \<times> string list)" where
  "restrict_collection self user_id collection_string full_data mapping deleted_elements =
     (case map_of (cachables self) collection_string of
        None \<Rightarrow> Inl (KeyError collection_string)
      | Some c \<Rightarrow>
          (case restrict_elements c user_id full_data of
             Inl e \<Rightarrow> Inl e
           | Inr restricted_elements \<Rightarrow>
               (case element_ids full_data of
                  Inl e \<Rightarrow> Inl e
                | Inr full_data_ids \<Rightarrow>
                    (case element_ids restricted_elements of
                       Inl e \<Rightarrow> Inl e
                     | Inr restricted_data_ids \<Rightarrow>
                         (case add_to_mapping collection_string restricted_elements mapping of
                            Inl e \<Rightarrow> Inl e
                          | Inr mapping' \<Rightarrow>
                              Inr (mapping',
                                   deleted_elements @
                                   map (get_element_id collection_string)
                                     (remdups
                                        (filter (\<lambda>i. i \<notin> set restricted_data_ids)
                                           full_data_ids))))))))"

fun restrict_loop ::
  "'s element_cache \<Rightarrow> int \<Rightarrow> (string \<times> json list) list \<Rightarrow> (string \<times> jsontext) list \<Rightarrow>
     string list \<Rightarrow> error + ((string \<times> jsontext) list \<times> string list)" where
  "restrict_loop self user_id [] mapping deleted_elements = Inr (mapping, deleted_elements)"
| "restrict_loop self user_id ((collection_string, full_data) # rest) mapping deleted_elements =
     (case restrict_collection self user_id collection_string full_data mapping
             deleted_elements of
        Inl e \<Rightarrow> Inl e
      | Inr (mapping', deleted_elements') \<Rightarrow>
          restrict_loop self user_id rest mapping' deleted_elements')"

text \<open>
  The \<^verbatim>\<open>try\<close> statement of \<^verbatim>\<open>update_restricted_data\<close>: the delta since the
  user's change id or, when \<^verbatim>\<open>get_full_data\<close> raises a \<^verbatim>\<open>RuntimeError\<close>, all
  full data, no deletions, and the user's store purged. The third component is the
  backend afterwards.
\<close>

definition fetch_delta ::
  "'s element_cache \<Rightarrow> int \<Rightarrow> int \<Rightarrow> error + ((string \<times> json list) list \<times> string list \<times> 's)" where
  "fetch_delta self user_id user_change_id =
     (case get_full_data self (user_change_id + 1) (- 1) of
        Inr (full_data_elements, deleted_elements) \<Rightarrow>
          Inr (full_data_elements, deleted_elements, backend self)
      | Inl e \<Rightarrow>
          if is_RuntimeError e
          then (case get_all_full_data self of
                  Inl e' \<Rightarrow> Inl e'
                | Inr full_data_elements \<Rightarrow>
                    Inr (full_data_elements, [],
                         del_restricted_data (cache_provider self) user_id (backend self)))
          else Inl e)"

text \<open>
  The change id the user's restricted data is current for:
  \<^verbatim>\<open>int(value) if value else -1\<close> is \<open>- 1\<close> for \<^verbatim>\<open>None\<close> and for \<open>0\<close>.
\<close>

definition user_change_id :: "'s element_cache \<Rightarrow> int \<Rightarrow> int" where
  "user_change_id self user_id =
     (case get_change_id_user (cache_provider self) user_id (backend self) of
        None \<Rightarrow> - 1
      | Some v \<Rightarrow> if v = 0 then - 1 else v)"

text \<open>
  The body of \<^verbatim>\<open>if await self.cache_provider.set_lock(lock_name):\<close> up to, and
  without, the release of the lock.
\<close>

definition refresh_restricted_data ::
  "'s element_cache \<Rightarrow> int \<Rightarrow> (error + unit) \<times> 's element_cache" where
  "refresh_restricted_data self user_id =
     (let P = cache_provider self;
          change_id = get_current_change_id self
      in if change_id > user_change_id self user_id
         then
           (case fetch_delta self user_id (user_change_id self user_id) of
              Inl e \<Rightarrow> (Inl e, self)
            | Inr (full_data_elements, deleted_elements, s1) \<Rightarrow>
                (case restrict_loop self user_id full_data_elements [] deleted_elements of
                   Inl e \<Rightarrow> (Inl e, self\<lparr>backend := s1\<rparr>)
                 | Inr (mapping, deleted_elements') \<Rightarrow>
                     let mapping' =
                           AList.update ''_config:change_id'' (json_dumps (JInt change_id)) mapping;
                         s2 = provider_update_restricted_data P user_id mapping' s1;
                         s3 = (if deleted_elements' \<noteq> []
                               then del_elements P deleted_elements' (Some user_id) s2
                               else s2)
                     in (Inr (), self\<lparr>backend := s3\<rparr>)))
         else (Inr (), self))"

definition restricted_lock_name :: "int \<Rightarrow> string" where
  "restricted_lock_name user_id = ''restricted_data_'' @ str_int user_id"

text \<open>
  \<^verbatim>\<open>update_restricted_data\<close>. An exception of the critical section leaves the method
  at once: the release of the lock is the section's last statement and is not run.
  (\<^verbatim>\<open>str(change_id)\<close> and \<^verbatim>\<open>json.dumps(change_id)\<close> are the same text.)
\<close>

definition update_restricted_data ::
  "'s element_cache \<Rightarrow> int \<Rightarrow> ((error + unit) \<times> 's element_cache) option" where
  "update_restricted_data self user_id =
     (if \<not> use_restricted_data_cache self then Some (Inr (), self)
      else if \<not> ensured self then Some (Inl (RuntimeError EnsureBeforeUpdating), self)
      else
        let P = cache_provider self;
            lock_name = restricted_lock_name user_id
        in (case set_lock P lock_name (backend self) of
              (True, s1) \<Rightarrow>
                (case refresh_restricted_data (self\<lparr>backend := s1\<rparr>) user_id of
                   (Inl e, self1) \<Rightarrow> Some (Inl e, self1)
                 | (Inr u, self1) \<Rightarrow>
                     Some (Inr (), self1\<lparr>backend := del_lock P lock_name (backend self1)\<rparr>))
            | (False, s1) \<Rightarrow>
                (case wait_for_lock P lock_name s1 of
                   None \<Rightarrow> None
                 | Some u \<Rightarrow> Some (Inr (), self\<lparr>backend := s1\<rparr>))))"

subsection \<open>Restricted-data reads\<close>

text \<open>The loop of \<^verbatim>\<open>get_all_restricted_data\<close> when the restricted cache is off.\<close>

fun live_restrict_loop ::
  "'s element_cache \<Rightarrow> int \<Rightarrow> (string \<times> json list) list \<Rightarrow> (string \<times> json list) list \<Rightarrow>
     error + (string \<times> json list) list" where
  "live_restrict_loop self user_id [] all_restricted_data = Inr all_restricted_data"
| "live_restrict_loop self user_id ((collection_string, full_data) # rest) all_restricted_data =
     (case map_of (cachables self) collection_string of
        None \<Rightarrow> Inl (KeyError collection_string)
      | Some c \<Rightarrow>
          (case restrict_elements c user_id full_data of
             Inl e \<Rightarrow> Inl e
           | Inr elements \<Rightarrow>
               live_restrict_loop self user_id rest
                 (AList.update collection_string elements all_restricted_data)))"

text \<open>\<^verbatim>\<open>element_id.decode().startswith("_config")\<close>\<close>

definition is_config_key :: "string \<Rightarrow> bool" where
  "is_config_key element_id = (take 7 element_id = ''_config'')"

text \<open>The loop of \<^verbatim>\<open>get_all_restricted_data\<close> over the user's store.\<close>

fun snapshot_loop ::
  "(string \<times> jsontext) list \<Rightarrow> (string \<times> json list) list \<Rightarrow> error + (string \<times> json list) list" where
  "snapshot_loop [] out = Inr out"
| "snapshot_loop ((element_id, data) # rest) out =
     (if is_config_key element_id then snapshot_loop rest out
      else (case split_element_id element_id of
              Inl e \<Rightarrow> Inl e
            | Inr (collection_string, i) \<Rightarrow>
                snapshot_loop rest (dict_append collection_string (json_loads data) out)))"

definition get_all_restricted_data ::
  "'s element_cache \<Rightarrow> int \<Rightarrow>
     ((error + (string \<times> json list) list) \<times> 's element_cache) option" where
  "get_all_restricted_data self user_id =
     (if \<not> use_restricted_data_cache self
      then (case get_all_full_data self of
              Inl e \<Rightarrow> Some (Inl e, self)
            | Inr all_data \<Rightarrow> Some (live_restrict_loop self user_id all_data [], self))
      else
        (case update_restricted_data self user_id of
           None \<Rightarrow> None
         | Some (Inl e, self1) \<Rightarrow> Some (Inl e, self1)
         | Some (Inr u, self1) \<Rightarrow>
             Some (snapshot_loop
                     (get_all_data (cache_provider self1) (Some user_id) (backend self1)) [],
                   self1)))"

text \<open>The loop of \<^verbatim>\<open>get_restricted_data\<close> when the restricted cache is off.\<close>

fun live_delta_loop ::
  "'s element_cache \<Rightarrow> int \<Rightarrow> (string \<times> json list) list \<Rightarrow> (string \<times> json list) list \<Rightarrow>
     string list \<Rightarrow> error + ((string \<times> json list) list \<times> string list)" where
  "live_delta_loop self user_id [] restricted_data deleted_elements =
     Inr (restricted_data, deleted_elements)"
| "live_delta_loop self user_id ((collection_string, full_data) # rest) restricted_data
     deleted_elements =
     (case map_of (cachables self) collection_string of
        None \<Rightarrow> Inl (KeyError collection_string)
      | Some c \<Rightarrow>
          (case restrict_elements c user_id full_data of
             Inl e \<Rightarrow> Inl e
           | Inr elements \<Rightarrow>
               (case element_ids full_data of
                  Inl e \<Rightarrow> Inl e
                | Inr full_data_ids \<Rightarrow>
                    (case element_ids elements of
                       Inl e \<Rightarrow> Inl e
                     | Inr restricted_data_ids \<Rightarrow>
                         live_delta_loop self user_id rest
                           (if elements \<noteq> []
                            then AList.update collection_string elements restricted_data
                            else restricted_data)
                           (deleted_elements @
                            map (get_element_id collection_string)
                              (remdups
                                 (filter (\<lambda>i. i \<notin> set restricted_data_ids)
                                    full_data_ids)))))))"

definition get_restricted_data ::
  "'s element_cache \<Rightarrow> int \<Rightarrow> int \<Rightarrow> int \<Rightarrow>
     ((error + ((string \<times> json list) list \<times> string list)) \<times> 's element_cache) option" where
  "get_restricted_data self user_id change_id max_change_id =
     (if change_id = 0
      then (case get_all_restricted_data self user_id of
              None \<Rightarrow> None
            | Some (Inl e, self1) \<Rightarrow> Some (Inl e, self1)
            | Some (Inr all_data, self1) \<Rightarrow> Some (Inr (all_data, []), self1))
      else if \<not> use_restricted_data_cache self
      then (case get_full_data self change_id max_change_id of
              Inl e \<Rightarrow> Some (Inl e, self)
            | Inr (changed_elements, deleted_elements) \<Rightarrow>
                Some (live_delta_loop self user_id changed_elements [] deleted_elements, self))
      else
        (case get_lowest_change_id self of
           Inl e \<Rightarrow> Some (Inl e, self)
         | Inr lowest_change_id \<Rightarrow>
             if change_id < lowest_change_id
             then Some (Inl (RuntimeError (ChangeIdTooLow change_id lowest_change_id)), self)
             else
               (case update_restricted_data self user_id of
                  None \<Rightarrow> None
                | Some (Inl e, self1) \<Rightarrow> Some (Inl e, self1)
                | Some (Inr u, self1) \<Rightarrow>
                    (case get_data_since (cache_provider self1) change_id (Some user_id)
                            max_change_id (backend self1) of
                       (raw_changed_elements, deleted_elements) \<Rightarrow>
                         Some (Inr (decode_changed raw_changed_elements, deleted_elements),
                               self1)))))"

section \<open>A backend that keeps everything in memory\<close>

text \<open>
  Modelled from the spec: the cache provider (cache_providers.py), which is not among the
  sources. The definitions of this section follow the contract the spec gives for each
  operation: a full-data store, one store per user, the change index (pairs of a
  ChangeId and an element id, appended and never removed but by a reset), the internal
  counter of change ids, and the locks that are held.
\<close>

text \<open>Modelled from the spec: the state of the provider, as section 3 of the spec lists it.\<close>

record memory =
  full_data :: "(string \<times> jsontext) list"
  restricted_data :: "(int \<times> (string \<times> jsontext) list) list"
  change_index :: "(int \<times> string) list"
  change_counter :: "int option"
  locks :: "string list"

text \<open>
  Modelled from the spec: the store of one user (empty when the user has none), and the
  store an optional user id names.
\<close>

definition user_store :: "int \<Rightarrow> memory \<Rightarrow> (string \<times> jsontext) list" where
  "user_store user_id s = (case map_of (restricted_data s) user_id of None \<Rightarrow> [] | Some d \<Rightarrow> d)"

definition the_store :: "int option \<Rightarrow> memory \<Rightarrow> (string \<times> jsontext) list" where
  "the_store user s = (case user of None \<Rightarrow> full_data s | Some user_id \<Rightarrow> user_store user_id s)"

text \<open>Modelled from the spec: a store exists once it holds an entry.\<close>

definition mem_data_exists :: "int option \<Rightarrow> memory \<Rightarrow> bool" where
  "mem_data_exists user s = (the_store user s \<noteq> [])"

text \<open>Modelled from the spec: non-blocking try-acquire, poll-is-held, release.\<close>

definition mem_set_lock :: "string \<Rightarrow> memory \<Rightarrow> bool \<times> memory" where
  "mem_set_lock lock_name s =
     (if lock_name \<in> set (locks s) then (False, s)
      else (True, s\<lparr>locks := lock_name # locks s\<rparr>))"

definition mem_get_lock :: "string \<Rightarrow> memory \<Rightarrow> bool" where
  "mem_get_lock lock_name s = (lock_name \<in> set (locks s))"

definition mem_del_lock :: "string \<Rightarrow> memory \<Rightarrow> memory" where
  "mem_del_lock lock_name s = s\<lparr>locks := removeAll lock_name (locks s)\<rparr>"

text \<open>
  Modelled from the spec: the full-data store is replaced by the mapping; the reset is
  the one operation that empties the change index.
\<close>

definition mem_reset_full_cache :: "(string \<times> jsontext) list \<Rightarrow> memory \<Rightarrow> memory" where
  "mem_reset_full_cache mapping s = s\<lparr>full_data := mapping, change_index := []\<rparr>"

text \<open>
  Modelled from the spec: upserting pairs into a store and removing keys from it, one
  after the other.
\<close>

definition upsert_all :: "('k \<times> 'v) list \<Rightarrow> ('k \<times> 'v) list \<Rightarrow> ('k \<times> 'v) list" where
  "upsert_all pairs d = fold (\<lambda>(k, v). AList.update k v) pairs d"

definition delete_all :: "'k list \<Rightarrow> ('k \<times> 'v) list \<Rightarrow> ('k \<times> 'v) list" where
  "delete_all ks d = fold AList.delete ks d"

text \<open>Modelled from the spec: upsert into the full-data store.\<close>

definition mem_add_elements :: "(string \<times> jsontext) list \<Rightarrow> memory \<Rightarrow> memory" where
  "mem_add_elements pairs s = s\<lparr>full_data := upsert_all pairs (full_data s)\<rparr>"

text \<open>
  Modelled from the spec: remove entries from the full-data store (no user) or from the
  store of one user.
\<close>

definition mem_del_elements :: "string list \<Rightarrow> int option \<Rightarrow> memory \<Rightarrow> memory" where
  "mem_del_elements ids user s =
     (case user of
        None \<Rightarrow> s\<lparr>full_data := delete_all ids (full_data s)\<rparr>
      | Some user_id \<Rightarrow>
          (case map_of (restricted_data s) user_id of
             None \<Rightarrow> s
           | Some d \<Rightarrow>
               s\<lparr>restricted_data := AList.update user_id (delete_all ids d) (restricted_data s)\<rparr>))"

text \<open>
  Modelled from the spec: the next ChangeId comes from the internal counter, which the
  seed starts only when there is no counter yet; a pair of that ChangeId and the id is
  recorded for every id.
\<close>

definition mem_add_changed_elements :: "int \<Rightarrow> string list \<Rightarrow> memory \<Rightarrow> int \<times> memory" where
  "mem_add_changed_elements seed ids s =
     (let change_id = (case change_counter s of None \<Rightarrow> seed | Some c \<Rightarrow> c + 1)
      in (change_id,
          s\<lparr>change_counter := Some change_id,
            change_index := change_index s @ map (\<lambda>i. (change_id, i)) ids\<rparr>))"

text \<open>Modelled from the spec: the snapshot of a full namespace.\<close>

definition mem_get_all_data :: "int option \<Rightarrow> memory \<Rightarrow> (string \<times> jsontext) list" where
  "mem_get_all_data user s = the_store user s"

text \<open>
  Modelled from the spec: the ChangeId an element id was recorded with last, the range
  of ChangeIds a query asks for, and the element ids recorded last in that range.
\<close>

definition last_recorded :: "(int \<times> string) list \<Rightarrow> string \<Rightarrow> int option" where
  "last_recorded index member = map_of (map (\<lambda>(score, m). (m, score)) (rev index)) member"

definition in_range :: "int \<Rightarrow> int \<Rightarrow> int \<Rightarrow> bool" where
  "in_range change_id max_change_id score =
     (change_id \<le> score \<and> (max_change_id = - 1 \<or> score \<le> max_change_id))"

definition since_members :: "(int \<times> string) list \<Rightarrow> int \<Rightarrow> int \<Rightarrow> string list" where
  "since_members index change_id max_change_id =
     filter (\<lambda>m. case last_recorded index m of
                   None \<Rightarrow> False
                 | Some score \<Rightarrow> in_range change_id max_change_id score)
       (remdups (map snd index))"

text \<open>
  Modelled from the spec: the collection of an element id, the text before its last
  separator; and the loop that sorts the ids of the range into changed elements, grouped
  by collection, and deleted ids.
\<close>

definition collection_of :: "string \<Rightarrow> string" where
  "collection_of element_id = rev (drop 1 (dropWhile (\<lambda>c. c \<noteq> CHR '':'') (rev element_id)))"

fun since_loop ::
  "string list \<Rightarrow> (string \<times> jsontext) list \<Rightarrow> (string \<times> jsontext list) list \<Rightarrow> string list \<Rightarrow>
     (string \<times> jsontext list) list \<times> string list" where
  "since_loop [] d changed_elements deleted_elements = (changed_elements, deleted_elements)"
| "since_loop (m # ms) d changed_elements deleted_elements =
     (case map_of d m of
        None \<Rightarrow> since_loop ms d changed_elements (deleted_elements @ [m])
      | Some v \<Rightarrow> since_loop ms d (dict_append (collection_of m) v changed_elements)
                   deleted_elements)"

text \<open>
  Modelled from the spec: every element whose last recorded ChangeId lies in the range
  (no upper end when \<open>max_change_id\<close> is \<open>- 1\<close>), grouped by collection; an element of the
  range that the store no longer holds is reported as deleted.
\<close>

definition mem_get_data_since ::
  "int \<Rightarrow> int option \<Rightarrow> int \<Rightarrow> memory \<Rightarrow> (string \<times> jsontext list) list \<times> string list" where
  "mem_get_data_since change_id user max_change_id s =
     since_loop (since_members (change_index s) change_id max_change_id) (the_store user s) [] []"

text \<open>Modelled from the spec: the store of the user is removed.\<close>

definition mem_del_restricted_data :: "int \<Rightarrow> memory \<Rightarrow> memory" where
  "mem_del_restricted_data user_id s =
     s\<lparr>restricted_data := AList.delete user_id (restricted_data s)\<rparr>"

text \<open>Modelled from the spec: the ChangeId the sentinel key of the user's store records.\<close>

definition mem_get_change_id_user :: "int \<Rightarrow> memory \<Rightarrow> int option" where
  "mem_get_change_id_user user_id s =
     (case map_of (user_store user_id s) ''_config:change_id'' of
        Some (Dumps (JInt n)) \<Rightarrow> Some n
      | _ \<Rightarrow> None)"

text \<open>Modelled from the spec: upsert into the store of the user.\<close>

definition mem_update_restricted_data ::
  "int \<Rightarrow> (string \<times> jsontext) list \<Rightarrow> memory \<Rightarrow> memory" where
  "mem_update_restricted_data user_id mapping s =
     s\<lparr>restricted_data :=
         AList.update user_id (upsert_all mapping (user_store user_id s)) (restricted_data s)\<rparr>"

text \<open>
  Modelled from the spec: the highest recorded ChangeId, or none. The cache reads the
  answer as \<^verbatim>\<open>value[0][1]\<close>, a list of pairs of a member and its score.
\<close>

definition mem_get_current_change_id :: "memory \<Rightarrow> (string \<times> int) list" where
  "mem_get_current_change_id s =
     (case change_index s of
        [] \<Rightarrow> []
      | e # es \<Rightarrow> [(''change_id'', fold max (map fst es) (fst e))])"

text \<open>Modelled from the spec: the lowest recorded ChangeId, or none.\<close>

definition mem_get_lowest_change_id :: "memory \<Rightarrow> int option" where
  "mem_get_lowest_change_id s =
     (case change_index s of
        [] \<Rightarrow> None
      | e # es \<Rightarrow> Some (fold min (map fst es) (fst e)))"

text \<open>Modelled from the spec: the operations above as one provider.\<close>

definition memory_provider :: "memory provider" where
  "memory_provider =
     \<lparr>data_exists = mem_data_exists,
      set_lock = mem_set_lock,
      get_lock = mem_get_lock,
      del_lock = mem_del_lock,
      reset_full_cache = mem_reset_full_cache,
      add_elements = mem_add_elements,
      del_elements = mem_del_elements,
      add_changed_elements = mem_add_changed_elements,
      get_all_data = mem_get_all_data,
      get_data_since = mem_get_data_since,
      del_restricted_data = mem_del_restricted_data,
      get_change_id_user = mem_get_change_id_user,
      provider_update_restricted_data = mem_update_restricted_data,
      provider_get_current_change_id = mem_get_current_change_id,
      provider_get_lowest_change_id = mem_get_lowest_change_id\<rparr>"

text \<open>Modelled from the spec: the backend before anything was written.\<close>

definition empty_memory :: memory where
  "empty_memory =
     \<lparr>full_data = [], restricted_data = [], change_index = [], change_counter = None,
      locks = []\<rparr>"

text \<open>
  \<^verbatim>\<open>ElementCache(use_restricted_data_cache, cachable_provider, start_time)\<close> on this
  backend, as the constructor leaves it.
\<close>

definition new_cache :: "bool \<Rightarrow> (string \<times> cachable) list \<Rightarrow> int \<Rightarrow> memory element_cache" where
  "new_cache restricted cs start =
     \<lparr>use_restricted_data_cache = restricted,
      cache_provider = memory_provider,
      cachables = cs,
      start_time = start,
      ensured = False,
      backend = empty_memory\<rparr>"

section \<open>Sequences of calls\<close>

text \<open>
  \<^verbatim>\<open>change_elements\<close> called once for every batch of a list, one call after the
  other; the results of the calls, in order.
\<close>

fun change_all ::
  "'s element_cache \<Rightarrow> (string \<times> json option) list list \<Rightarrow>
     (error + int) list \<times> 's element_cache" where
  "change_all self [] = ([], self)"
| "change_all self (elements # rest) =
     (case change_elements self elements of
        (r, self1) \<Rightarrow> (case change_all self1 rest of (rs, self2) \<Rightarrow> (r # rs, self2)))"

text \<open>The ChangeId the in-memory backend hands out next.\<close>

definition next_change_id :: "memory element_cache \<Rightarrow> int" where
  "next_change_id self =
     (case change_counter (backend self) of None \<Rightarrow> start_time self + 1 | Some c \<Rightarrow> c + 1)"

section \<open>Example data\<close>

text \<open>The collection and the two versions of its element that the spec's scenario uses.\<close>

definition motion_A :: json where
  "motion_A = JObj [(''id'', JInt 1), (''title'', JStr ''A'')]"

definition motion_B :: json where
  "motion_B = JObj [(''id'', JInt 1), (''title'', JStr ''B'')]"

text \<open>A collection whose permission filter lets every user see everything.\<close>

definition motion :: cachable where
  "motion = \<lparr>get_elements = Inr [motion_A], restrict_elements = (\<lambda>user_id es. Inr es)\<rparr>"

text \<open>The cache right after \<^verbatim>\<open>ensure_cache\<close> built it: no change was recorded yet.\<close>

definition built_cache :: "memory element_cache" where
  "built_cache =
     \<lparr>use_restricted_data_cache = False, cache_provider = memory_provider,
      cachables = [(''motion'', motion)], start_time = 100, ensured = True,
      backend = \<lparr>full_data = [(''motion:1'', Dumps motion_A)], restricted_data = [],
                 change_index = [], change_counter = None, locks = []\<rparr>\<rparr>"

text \<open>The cache after one change of the element, stamped 101.\<close>

definition changed_cache :: "memory element_cache" where
  "changed_cache =
     \<lparr>use_restricted_data_cache = False, cache_provider = memory_provider,
      cachables = [(''motion'', motion)], start_time = 100, ensured = True,
      backend = \<lparr>full_data = [(''motion:1'', Dumps motion_B)], restricted_data = [],
                 change_index = [(101, ''motion:1'')], change_counter = Some 101,
                 locks = []\<rparr>\<rparr>"

text \<open>The built cache with the restricted cache switched on.\<close>

definition restricted_cache :: "memory element_cache" where
  "restricted_cache = built_cache\<lparr>use_restricted_data_cache := True\<rparr>"

text \<open>The same cache after the restricted data of user 7 was refreshed.\<close>

definition refreshed_cache :: "memory element_cache" where
  "refreshed_cache =
     restricted_cache\<lparr>backend := (backend restricted_cache)
       \<lparr>restricted_data :=
          [(7, [(''motion:1'', Dumps motion_A), (''_config:change_id'', Dumps (JInt 100))])]\<rparr>\<rparr>"

text \<open>A collection whose permission filter raises.\<close>

definition secret :: cachable where
  "secret = \<lparr>get_elements = Inr [motion_A],
              restrict_elements = (\<lambda>user_id es. Inl (Raised ''denied''))\<rparr>"

text \<open>A collection whose elements cannot be read.\<close>

definition broken :: cachable where
  "broken = \<lparr>get_elements = Inl (Raised ''database''),
              restrict_elements = (\<lambda>user_id es. Inr es)\<rparr>"

definition secret_cache :: "memory element_cache" where
  "secret_cache = restricted_cache\<lparr>cachables := [(''motion'', secret)]\<rparr>"

text \<open>The cache with the refresh lock of user 7 held.\<close>

definition stuck_cache :: "memory element_cache" where
  "stuck_cache =
     secret_cache\<lparr>backend := (backend secret_cache)\<lparr>locks := [''restricted_data_7'']\<rparr>\<rparr>"

text \<open>A collection whose permission filter lets no user see anything.\<close>

definition hidden :: cachable where
  "hidden = \<lparr>get_elements = Inr [motion_B], restrict_elements = (\<lambda>user_id es. Inr [])\<rparr>"

text \<open>
  User 7 has seen \<open>motion:1\<close> as of change id 100; the element was changed with change id
  101, and the filter no longer shows it.
\<close>

definition lost_cache :: "memory element_cache" where
  "lost_cache =
     \<lparr>use_restricted_data_cache = True, cache_provider = memory_provider,
      cachables = [(''motion'', hidden)], start_time = 100, ensured = True,
      backend = \<lparr>full_data = [(''motion:1'', Dumps motion_B)],
                 restricted_data =
                   [(7, [(''motion:1'', Dumps motion_A),
                         (''_config:change_id'', Dumps (JInt 100))])],
                 change_index = [(101, ''motion:1'')], change_counter = Some 101,
                 locks = []\<rparr>\<rparr>"

text \<open>The same cache after the refresh for user 7.\<close>

definition hidden_cache :: "memory element_cache" where
  "hidden_cache =
     lost_cache\<lparr>backend := (backend lost_cache)
       \<lparr>restricted_data := [(7, [(''_config:change_id'', Dumps (JInt 101))])]\<rparr>\<rparr>"

text \<open>A second element of the collection.\<close>

definition motion_2 :: json where
  "motion_2 = JObj [(''id'', JInt 2), (''title'', JStr ''C'')]"

text \<open>A collection whose permission filter shows every user the first element only.\<close>

definition first_only :: cachable where
  "first_only = \<lparr>get_elements = Inr [motion_B, motion_2],
                  restrict_elements = (\<lambda>user_id es. Inr [motion_B])\<rparr>"

text \<open>
  User 7 has seen \<open>motion:2\<close> as of change id 50. The change index starts at 101, and
  \<open>motion:2\<close> was never changed since the cache was built.
\<close>

definition stale_cache :: "memory element_cache" where
  "stale_cache =
     \<lparr>use_restricted_data_cache = True, cache_provider = memory_provider,
      cachables = [(''motion'', first_only)], start_time = 100, ensured = True,
      backend = \<lparr>full_data = [(''motion:1'', Dumps motion_B), (''motion:2'', Dumps motion_2)],
                 restricted_data =
                   [(7, [(''motion:2'', Dumps motion_2),
                         (''_config:change_id'', Dumps (JInt 50))])],
                 change_index = [(101, ''motion:1'')], change_counter = Some 101,
                 locks = []\<rparr>\<rparr>"

text \<open>The same cache after the refresh for user 7, which rebuilt the user's store.\<close>

definition resynced_cache :: "memory element_cache" where
  "resynced_cache =
     stale_cache\<lparr>backend := (backend stale_cache)
       \<lparr>restricted_data :=
          [(7, [(''motion:1'', Dumps motion_B), (''_config:change_id'', Dumps (JInt 101))])]\<rparr>\<rparr>"

text \<open>
  The cache of user 7 after the refresh, once \<open>motion:1\<close> was changed again with change id
  102; and the same cache after the next refresh for user 7.
\<close>

definition later_cache :: "memory element_cache" where
  "later_cache =
     hidden_cache\<lparr>backend := (backend hidden_cache)
       \<lparr>full_data := [(''motion:1'', Dumps motion_A)],
        change_index := [(101, ''motion:1''), (102, ''motion:1'')],
        change_counter := Some 102\<rparr>\<rparr>"

definition later_refreshed_cache :: "memory element_cache" where
  "later_refreshed_cache =
     later_cache\<lparr>backend := (backend later_cache)
       \<lparr>restricted_data := [(7, [(''_config:change_id'', Dumps (JInt 102))])]\<rparr>\<rparr>"

text \<open>
  A collection whose permission filter shows a user nothing of a list of fewer than two
  elements and everything of a longer one.
\<close>

definition pair_only :: cachable where
  "pair_only = \<lparr>get_elements = Inr [motion_B, motion_2],
                 restrict_elements = (\<lambda>user_id es. if length es < 2 then Inr [] else Inr es)\<rparr>"

text \<open>
  User 7 has seen both elements as of change id 100, and \<open>motion:1\<close> was changed with
  change id 101. The three caches after it: after the refresh for user 7, after both
  elements were changed with change id 102, and after the next restricted snapshot.
\<close>

definition regain_cache :: "memory element_cache" where
  "regain_cache =
     \<lparr>use_restricted_data_cache = True, cache_provider = memory_provider,
      cachables = [(''motion'', pair_only)], start_time = 100, ensured = True,
      backend = \<lparr>full_data = [(''motion:1'', Dumps motion_B), (''motion:2'', Dumps motion_2)],
                 restricted_data =
                   [(7, [(''motion:1'', Dumps motion_A), (''motion:2'', Dumps motion_2),
                         (''_config:change_id'', Dumps (JInt 100))])],
                 change_index = [(101, ''motion:1'')], change_counter = Some 101,
                 locks = []\<rparr>\<rparr>"

definition regain_hidden_cache :: "memory element_cache" where
  "regain_hidden_cache =
     regain_cache\<lparr>backend := (backend regain_cache)
       \<lparr>restricted_data :=
          [(7, [(''motion:2'', Dumps motion_2), (''_config:change_id'', Dumps (JInt 101))])]\<rparr>\<rparr>"

definition regain_changed_cache :: "memory element_cache" where
  "regain_changed_cache =
     regain_hidden_cache\<lparr>backend := (backend regain_hidden_cache)
       \<lparr>full_data := [(''motion:1'', Dumps motion_A), (''motion:2'', Dumps motion_2)],
        change_index := [(101, ''motion:1''), (102, ''motion:1''), (102, ''motion:2'')],
        change_counter := Some 102\<rparr>\<rparr>"

definition regain_shown_cache :: "memory element_cache" where
  "regain_shown_cache =
     regain_changed_cache\<lparr>backend := (backend regain_changed_cache)
       \<lparr>restricted_data :=
          [(7, [(''motion:2'', Dumps motion_2), (''_config:change_id'', Dumps (JInt 102)),
                (''motion:1'', Dumps motion_A)])]\<rparr>\<rparr>"

section \<open>Properties\<close>

lemmas mem_defs = memory_provider_def mem_data_exists_def mem_set_lock_def mem_get_lock_def
  mem_del_lock_def mem_reset_full_cache_def mem_add_elements_def mem_del_elements_def
  mem_add_changed_elements_def mem_get_all_data_def mem_get_data_since_def
  mem_del_restricted_data_def mem_get_change_id_user_def mem_update_restricted_data_def
  mem_get_current_change_id_def mem_get_lowest_change_id_def the_store_def user_store_def
  upsert_all_def delete_all_def last_recorded_def in_range_def since_members_def
  collection_of_def empty_memory_def new_cache_def

lemma str_int_1: "str_int 1 = ''1''"
  by (simp add: str_int_def str_nat.simps digit_char_def)

lemma str_int_7: "str_int 7 = ''7''"
  by (simp add: str_int_def str_nat.simps digit_char_def)

lemmas cache_defs = update_restricted_data_def refresh_restricted_data_def fetch_delta_def
  user_change_id_def
  restrict_collection_def get_full_data_def get_all_full_data_def
  get_all_full_data_ordered_def get_current_change_id_def get_lowest_change_id_def
  get_all_restricted_data_def restricted_lock_name_def get_element_id_def json_dumps_def
  split_element_id_def int_of_str_def digit_value_def dict_set2_def dict_append_def
  decode_changed_def is_config_key_def Let_def

lemmas fixture_defs = built_cache_def motion_def motion_A_def motion_B_def

lemma str_int_2: "str_int 2 = ''2''"
  by (simp add: str_int_def str_nat.simps digit_char_def)

lemmas stale_defs = stale_cache_def resynced_cache_def first_only_def motion_2_def

lemmas regain_defs = regain_cache_def regain_hidden_cache_def regain_changed_cache_def
  regain_shown_cache_def pair_only_def motion_2_def


subsection \<open>The scenario of the spec\<close>

text \<open>
  C1. The cache is built with the one element \<open>motion:1\<close>, titled A. Changing the
  element to title B returns a ChangeId \<open>C1\<close> (the seed, \<open>start + 1\<close>), and
  \<^verbatim>\<open>get_full_data(C1)\<close> returns the element with title B under \<open>motion\<close> and no
  deletion. Changing it to \<^verbatim>\<open>None\<close> returns \<open>C2 = start + 2 > C1\<close>, and
  \<^verbatim>\<open>get_full_data(C2)\<close> returns no element and the one deleted id \<open>motion:1\<close>.
  This holds for every start time from 0 on, whether the restricted cache is on or off.
\<close>

theorem scenario:
  assumes "0 \<le> start"
  shows "\<exists>c1 c2 c3.
     ensure_cache (new_cache restricted [(''motion'', motion)] start) False = Some (Inr (), c1)
   \<and> change_elements c1 [(''motion:1'', Some motion_B)] = (Inr (start + 1), c2)
   \<and> get_full_data c2 (start + 1) (- 1) = Inr ([(''motion'', [motion_B])], [])
   \<and> change_elements c2 [(''motion:1'', None)] = (Inr (start + 2), c3)
   \<and> start + 1 < start + 2
   \<and> get_full_data c3 (start + 2) (- 1) = Inr ([], [''motion:1''])"
  using assms
  by (simp add: ensure_cache_def mem_defs motion_def motion_A_def motion_B_def
      get_element_id_def str_int_1 json_dumps_def change_elements_def get_full_data_def
      get_lowest_change_id_def decode_changed_def dict_append_def Let_def)

theorem scenario_witness:
  "(0::int) \<le> 100 \<and>
   (\<exists>c1 c2 c3.
     ensure_cache (new_cache False [(''motion'', motion)] 100) False = Some (Inr (), c1)
   \<and> change_elements c1 [(''motion:1'', Some motion_B)] = (Inr 101, c2)
   \<and> get_full_data c2 101 (- 1) = Inr ([(''motion'', [motion_B])], [])
   \<and> change_elements c2 [(''motion:1'', None)] = (Inr 102, c3)
   \<and> get_full_data c3 102 (- 1) = Inr ([], [''motion:1'']))"
proof -
  have h: "(0::int) \<le> 100" by simp
  from scenario [OF h, of False] show ?thesis by simp
qed

subsection \<open>Reading full data\<close>

text \<open>
  C2. Let \<^verbatim>\<open>get_lowest_change_id()\<close> return \<open>lowest\<close>. For every change id with
  \<open>0 < change_id < lowest\<close>, \<^verbatim>\<open>get_full_data(change_id)\<close> raises the stale-read error
  (whose message tells the caller to rerun with \<open>change_id = 0\<close>); for
  \<open>change_id = lowest\<close> it raises nothing and returns what the provider's
  \<^verbatim>\<open>get_data_since\<close> returns, decoded. This holds for every provider.
\<close>

theorem low_water_mark:
  assumes "get_lowest_change_id self = Inr lowest"
  shows "(0 < change_id \<and> change_id < lowest \<longrightarrow>
            get_full_data self change_id max_change_id
              = Inl (RuntimeError (ChangeIdTooLow change_id lowest)))
       \<and> get_full_data self lowest max_change_id
           = Inr (decode_changed
                    (fst (get_data_since (cache_provider self) lowest None max_change_id
                            (backend self))),
                  snd (get_data_since (cache_provider self) lowest None max_change_id
                         (backend self)))"
proof -
  from assms have nz: "lowest \<noteq> 0"
    by (auto simp: get_lowest_change_id_def split: option.splits if_splits)
  show ?thesis
    using assms nz by (simp add: get_full_data_def split: prod.splits)
qed

theorem low_water_mark_witness:
  "get_lowest_change_id changed_cache = Inr 101
   \<and> get_full_data changed_cache 50 (- 1) = Inl (RuntimeError (ChangeIdTooLow 50 101))
   \<and> get_full_data changed_cache 101 (- 1) = Inr ([(''motion'', [motion_B])], [])"
  using low_water_mark [of changed_cache 101 50 "- 1"]
  by (simp add: changed_cache_def get_lowest_change_id_def mem_defs decode_changed_def
      dict_append_def)

text \<open>
  C7. For \<open>change_id = 0\<close>, \<^verbatim>\<open>get_full_data\<close> returns the pair of
  \<^verbatim>\<open>get_all_full_data()\<close> and the empty deletion list (and raises what
  \<^verbatim>\<open>get_all_full_data\<close> raises). The low-water mark is not consulted: the result is
  the same whatever the provider's \<^verbatim>\<open>get_lowest_change_id\<close> is replaced by. On the
  freshly built cache, whose change index is empty and whose
  \<^verbatim>\<open>get_lowest_change_id\<close> raises, the call returns the full snapshot.
\<close>

theorem initial_sync:
  "get_full_data self 0 max_change_id
     = (case get_all_full_data self of
          Inl e \<Rightarrow> Inl e
        | Inr all_data \<Rightarrow> Inr (all_data, []))
   \<and> get_full_data
        (self\<lparr>cache_provider := (cache_provider self)\<lparr>provider_get_lowest_change_id := f\<rparr>\<rparr>)
        0 max_change_id
       = get_full_data self 0 max_change_id
   \<and> change_index (backend built_cache) = []
   \<and> get_lowest_change_id built_cache = Inl (RuntimeError NoKnownChangeId)
   \<and> get_full_data built_cache 0 (- 1) = Inr ([(''motion'', [motion_A])], [])"
  by (simp add: get_full_data_def get_all_full_data_def get_all_full_data_ordered_def
      built_cache_def get_lowest_change_id_def mem_defs split_element_id_def int_of_str_def
      digit_value_def
      dict_set2_def dict_append_def)

subsection \<open>Calls before the cache is ensured\<close>

text \<open>
  C6. Called before \<^verbatim>\<open>ensure_cache\<close>, \<^verbatim>\<open>change_elements\<close> raises the
  initialization-order error and leaves the whole cache object, the backend with its
  full-data store, change index and counter included, as it was: no provider operation
  has run and no ChangeId is used up.
\<close>

theorem change_elements_not_ensured:
  "\<not> ensured self \<Longrightarrow>
     change_elements self elements = (Inl (RuntimeError EnsureBeforeChanging), self)"
  by (simp add: change_elements_def)

theorem change_elements_not_ensured_witness:
  "\<not> ensured (new_cache True [(''motion'', motion)] 100)
   \<and> change_elements (new_cache True [(''motion'', motion)] 100)
        [(''motion:1'', Some motion_B)]
     = (Inl (RuntimeError EnsureBeforeChanging), new_cache True [(''motion'', motion)] 100)"
  using change_elements_not_ensured
          [of "new_cache True [(''motion'', motion)] 100" "[(''motion:1'', Some motion_B)]"]
  by (simp add: new_cache_def)

text \<open>
  C9. With the restricted cache off, \<^verbatim>\<open>update_restricted_data\<close> returns at once,
  without an error and without touching the cache, for every user, whether or not
  \<^verbatim>\<open>ensure_cache\<close> was called. With the restricted cache on and the cache not
  ensured it raises the initialization-order error. So this error comes only when the
  restricted cache is on.
\<close>

theorem update_restricted_data_disabled:
  "(\<not> use_restricted_data_cache self \<longrightarrow>
       update_restricted_data self user_id = Some (Inr (), self))
   \<and> (use_restricted_data_cache self \<and> \<not> ensured self \<longrightarrow>
       update_restricted_data self user_id
         = Some (Inl (RuntimeError EnsureBeforeUpdating), self))
   \<and> (update_restricted_data self user_id
         = Some (Inl (RuntimeError EnsureBeforeUpdating), self') \<longrightarrow>
       use_restricted_data_cache self)"
  by (auto simp add: update_restricted_data_def)

theorem update_restricted_data_disabled_witness:
  "\<not> use_restricted_data_cache (new_cache False [] 100)
   \<and> \<not> ensured (new_cache False [] 100)
   \<and> update_restricted_data (new_cache False [] 100) 7 = Some (Inr (), new_cache False [] 100)
   \<and> use_restricted_data_cache (new_cache True [] 100)
   \<and> \<not> ensured (new_cache True [] 100)
   \<and> update_restricted_data (new_cache True [] 100) 7
       = Some (Inl (RuntimeError EnsureBeforeUpdating), new_cache True [] 100)"
  using update_restricted_data_disabled [of "new_cache False [] 100" 7]
        update_restricted_data_disabled [of "new_cache True [] 100" 7]
  by (simp add: new_cache_def)

subsection \<open>Change ids\<close>

lemma change_elements_memory:
  assumes "cache_provider self = memory_provider" "ensured self"
  shows "\<exists>self1. change_elements self elements = (Inr (next_change_id self), self1)
     \<and> cache_provider self1 = memory_provider \<and> ensured self1
     \<and> next_change_id self1 = next_change_id self + 1"
  using assms
  by (simp add: change_elements_def next_change_id_def memory_provider_def
      mem_add_changed_elements_def mem_add_elements_def mem_del_elements_def Let_def
      split: prod.splits option.splits)

lemma change_all_ids:
  "cache_provider self = memory_provider \<Longrightarrow> ensured self \<Longrightarrow>
   fst (change_all self batches)
     = map (\<lambda>k. Inr (next_change_id self + int k)) [0..<length batches]"
proof (induction batches arbitrary: self)
  case Nil
  then show ?case by simp
next
  case (Cons b bs)
  from change_elements_memory [OF Cons.prems, of b]
  obtain self1 where s1: "change_elements self b = (Inr (next_change_id self), self1)"
    "cache_provider self1 = memory_provider" "ensured self1"
    "next_change_id self1 = next_change_id self + 1" by blast
  have "fst (change_all self1 bs)
     = map (\<lambda>k. Inr (next_change_id self1 + int k)) [0..<length bs]"
    using Cons.IH s1 by simp
  moreover obtain rs self2 where r: "change_all self1 bs = (rs, self2)"
    by (cases "change_all self1 bs")
  ultimately have "fst (change_all self (b # bs))
     = Inr (next_change_id self)
       # map (\<lambda>k. Inr (next_change_id self + 1 + int k)) [0..<length bs]"
    using s1 by simp
  also have "\<dots> = map (\<lambda>k. Inr (next_change_id self + int k)) [0..<length (b # bs)]"
    by (simp add: upt_conv_Cons map_Suc_upt [symmetric] o_def add.assoc del: upt_Suc)
  finally show ?case .
qed

text \<open>
  C3. On the in-memory backend, whose \<^verbatim>\<open>add_changed_elements\<close> follows the spec's
  contract (an internal counter, started by the seed only when there is none), every
  call of a sequence of \<^verbatim>\<open>change_elements\<close> calls on an ensured cache returns a
  ChangeId, and the ChangeIds returned are strictly increasing, although every call
  passes the same seed \<open>start_time + 1\<close>.
\<close>

theorem monotonic_change_ids:
  assumes "cache_provider self = memory_provider" "ensured self"
  shows "\<exists>ids. fst (change_all self batches) = map Inr ids
     \<and> length ids = length batches
     \<and> sorted_wrt (<) ids"
proof -
  let ?ids = "map (\<lambda>k. next_change_id self + int k) [0..<length batches]"
  have "fst (change_all self batches) = map Inr ?ids"
    using change_all_ids [OF assms] by simp
  moreover have "sorted_wrt (<) ?ids"
    by (simp add: sorted_wrt_iff_nth_less)
  ultimately show ?thesis by (intro exI [of _ ?ids]) simp
qed

theorem monotonic_change_ids_witness:
  "cache_provider built_cache = memory_provider \<and> ensured built_cache
   \<and> fst (change_all built_cache
            [[(''motion:1'', Some motion_B)], [], [(''motion:1'', None)]])
       = [Inr 101, Inr 102, Inr 103]
   \<and> sorted_wrt (<) [101, 102, 103 :: int]"
  using monotonic_change_ids
          [of built_cache "[[(''motion:1'', Some motion_B)], [], [(''motion:1'', None)]]"]
  by (simp add: built_cache_def change_elements_def mem_defs json_dumps_def motion_B_def
      Let_def)

subsection \<open>Upserts and deletions\<close>

text \<open>
  What the loop of \<^verbatim>\<open>change_elements\<close> computes: the entries with a true value are
  upserted, the entries with \<^verbatim>\<open>None\<close> or any other false value are deleted.
\<close>

lemma partition_elements_eq:
  "partition_elements elements changed_elements deleted_elements
     = (changed_elements
          @ concat (map (\<lambda>(element_id, data).
               case data of
                 None \<Rightarrow> []
               | Some d \<Rightarrow> if truthy d then [(element_id, json_dumps d)] else []) elements),
        deleted_elements
          @ concat (map (\<lambda>(element_id, data).
               case data of
                 None \<Rightarrow> [element_id]
               | Some d \<Rightarrow> if truthy d then [] else [element_id]) elements))"
  by (induction elements changed_elements deleted_elements rule: partition_elements.induct)
     (simp_all split: option.splits)

text \<open>
  C4. The claim fails on the code: \<^verbatim>\<open>if data:\<close> tests the truth value of the body,
  not whether it is \<^verbatim>\<open>None\<close>, so the empty document \<^verbatim>\<open>{}\<close> goes to the
  deletion list. On the built cache, \<^verbatim>\<open>change_elements({"motion:1": {}})\<close> removes
  \<open>motion:1\<close> from the full-data store.
\<close>

theorem empty_document_deleted:
  "partition_elements [(''motion:1'', Some (JObj []))] [] [] = ([], [''motion:1''])
   \<and> full_data (backend built_cache) = [(''motion:1'', Dumps motion_A)]
   \<and> full_data (backend (snd (change_elements built_cache [(''motion:1'', Some (JObj []))])))
       = []"
  by (simp add: built_cache_def change_elements_def mem_defs Let_def)

subsection \<open>The snapshot of a user's restricted data\<close>

lemma split_element_id_prefix:
  assumes "split_element_id element_id = Inr (c, i)"
  shows "\<exists>r. element_id = c @ r"
proof -
  let ?r = "rev element_id"
  let ?rest = "dropWhile (\<lambda>c. c \<noteq> CHR '':'') ?r"
  from assms have ne: "?rest \<noteq> []" and c: "c = rev (tl ?rest)"
    by (auto simp: split_element_id_def Let_def split: if_splits option.splits)
  have "?r = takeWhile (\<lambda>c. c \<noteq> CHR '':'') ?r @ ?rest" by simp
  also have "?rest = hd ?rest # tl ?rest" using ne by simp
  finally have "rev ?r = rev (takeWhile (\<lambda>c. c \<noteq> CHR '':'') ?r @ hd ?rest # tl ?rest)"
    by simp
  then have "element_id = c @ (hd ?rest # rev (takeWhile (\<lambda>c. c \<noteq> CHR '':'') ?r))"
    using c by simp
  then show ?thesis by blast
qed

lemma is_config_key_prefix:
  assumes "is_config_key c"
  shows "is_config_key (c @ r)"
proof -
  from assms have "length (take 7 c) = length ''_config''"
    unfolding is_config_key_def by (rule arg_cong)
  then have "7 \<le> length c" by simp
  then show ?thesis using assms by (simp add: is_config_key_def)
qed

lemma snapshot_loop_filter:
  "snapshot_loop (filter (\<lambda>(k, v). \<not> is_config_key k) entries) out = snapshot_loop entries out"
  by (induction entries out rule: snapshot_loop.induct) (auto split: sum.splits)

lemma dict_append_keys: "fst ` set (dict_append k x d) = insert k (fst ` set d)"
  by (simp add: dict_append_def AList.dom_update)

lemma snapshot_loop_keys:
  "snapshot_loop entries out0 = Inr out \<Longrightarrow> c \<in> fst ` set out \<Longrightarrow>
   c \<in> fst ` set out0 \<or> \<not> is_config_key c"
proof (induction entries out0 rule: snapshot_loop.induct)
  case (1 out)
  then show ?case by simp
next
  case (2 element_id data rest out0)
  show ?case
  proof (cases "is_config_key element_id")
    case True
    with 2 show ?thesis by simp
  next
    case False
    with "2.prems" obtain cs i where sp: "split_element_id element_id = Inr (cs, i)"
      by (auto split: sum.splits)
    with False "2.prems" have
      "snapshot_loop rest (dict_append cs (json_loads data) out0) = Inr out" by simp
    from "2.IH"(2) [OF False sp refl this "2.prems"(2)]
    have "c \<in> fst ` set (dict_append cs (json_loads data) out0) \<or> \<not> is_config_key c" .
    moreover have "\<not> is_config_key cs"
      using split_element_id_prefix [OF sp] False is_config_key_prefix by blast
    ultimately show ?thesis by (auto simp: dict_append_keys)
  qed
qed

lemma refresh_writes_sentinel:
  assumes "refresh_restricted_data self user_id = (Inr u, self1)"
      and "user_change_id self user_id < get_current_change_id self"
  shows "\<exists>mapping deleted s.
           map_of mapping ''_config:change_id''
             = Some (json_dumps (JInt (get_current_change_id self)))
         \<and> backend self1
             = (if deleted \<noteq> []
                then del_elements (cache_provider self) deleted (Some user_id)
                       (provider_update_restricted_data (cache_provider self) user_id mapping s)
                else provider_update_restricted_data (cache_provider self) user_id mapping s)"
proof -
  let ?cur = "get_current_change_id self"
  let ?P = "cache_provider self"
  from assms obtain fd del s where
    fd: "fetch_delta self user_id (user_change_id self user_id) = Inr (fd, del, s)"
    by (cases "fetch_delta self user_id (user_change_id self user_id)")
       (auto simp: refresh_restricted_data_def Let_def)
  with assms obtain mapping deleted where
    rl: "restrict_loop self user_id fd [] del = Inr (mapping, deleted)"
    by (cases "restrict_loop self user_id fd [] del")
       (auto simp: refresh_restricted_data_def Let_def)
  let ?m = "AList.update ''_config:change_id'' (json_dumps (JInt ?cur)) mapping"
  from assms fd rl have "backend self1
       = (if deleted \<noteq> []
          then del_elements ?P deleted (Some user_id)
                 (provider_update_restricted_data ?P user_id ?m s)
          else provider_update_restricted_data ?P user_id ?m s)"
    by (auto simp: refresh_restricted_data_def Let_def)
  moreover have "map_of ?m ''_config:change_id'' = Some (json_dumps (JInt ?cur))"
    by (simp add: AList.update_conv')
  ultimately show ?thesis by blast
qed

text \<open>
  C8. With the restricted cache on, a call of \<^verbatim>\<open>get_all_restricted_data(user_id)\<close>
  that returns has first run \<^verbatim>\<open>update_restricted_data\<close> (the cache afterwards is the
  one that call leaves), and what it returns is the snapshot of the user's store without
  the entries whose key starts with \<open>_config\<close>: it equals the snapshot of the store
  filtered of these keys, and no collection of the result has such a name. Whenever that
  run of \<^verbatim>\<open>update_restricted_data\<close> got the lock and found the user behind the
  current change id, the mapping it handed to the provider holds the sentinel
  \<open>_config:change_id\<close> with the current change id. This holds for every provider. In the
  witness the user's store holds the sentinel that the refresh has just written, and the
  result does not show it.
\<close>

theorem sentinel_excluded:
  assumes "use_restricted_data_cache self"
      and "get_all_restricted_data self user_id = Some (Inr out, self')"
  shows "update_restricted_data self user_id = Some (Inr (), self')
     \<and> snapshot_loop
          (filter (\<lambda>(element_id, data). \<not> is_config_key element_id)
             (get_all_data (cache_provider self') (Some user_id) (backend self'))) []
        = Inr out
     \<and> (\<forall>(collection_string, elements) \<in> set out. \<not> is_config_key collection_string)
     \<and> (ensured self
          \<and> set_lock (cache_provider self) (restricted_lock_name user_id) (backend self)
                = (True, s1)
          \<and> user_change_id (self\<lparr>backend := s1\<rparr>) user_id
                < get_current_change_id (self\<lparr>backend := s1\<rparr>) \<longrightarrow>
          (\<exists>mapping deleted s.
              map_of mapping ''_config:change_id''
                = Some (json_dumps (JInt (get_current_change_id (self\<lparr>backend := s1\<rparr>))))
            \<and> backend self'
                = del_lock (cache_provider self) (restricted_lock_name user_id)
                    (if deleted \<noteq> []
                     then del_elements (cache_provider self) deleted (Some user_id)
                            (provider_update_restricted_data (cache_provider self) user_id
                               mapping s)
                     else provider_update_restricted_data (cache_provider self) user_id
                            mapping s)))"
proof -
  from assms have u: "update_restricted_data self user_id = Some (Inr (), self')"
    and sn: "snapshot_loop (get_all_data (cache_provider self') (Some user_id) (backend self')) []
       = Inr out"
    by (auto simp: get_all_restricted_data_def split: option.splits sum.splits prod.splits)
  have "\<not> is_config_key c" if "(c, es) \<in> set out" for c es
  proof -
    from that have "c \<in> fst ` set out" by force
    from snapshot_loop_keys [OF sn this] show ?thesis by simp
  qed
  then have k: "\<forall>(collection_string, elements) \<in> set out. \<not> is_config_key collection_string"
    by blast
  have w: "\<exists>mapping deleted s.
              map_of mapping ''_config:change_id''
                = Some (json_dumps (JInt (get_current_change_id (self\<lparr>backend := s1\<rparr>))))
            \<and> backend self'
                = del_lock (cache_provider self) (restricted_lock_name user_id)
                    (if deleted \<noteq> []
                     then del_elements (cache_provider self) deleted (Some user_id)
                            (provider_update_restricted_data (cache_provider self) user_id
                               mapping s)
                     else provider_update_restricted_data (cache_provider self) user_id
                            mapping s)"
    if e: "ensured self"
      and l: "set_lock (cache_provider self) (restricted_lock_name user_id) (backend self)
                = (True, s1)"
      and st: "user_change_id (self\<lparr>backend := s1\<rparr>) user_id
                < get_current_change_id (self\<lparr>backend := s1\<rparr>)"
  proof -
    from u assms(1) e l obtain r self1 where
      rf: "refresh_restricted_data (self\<lparr>backend := s1\<rparr>) user_id = (Inr r, self1)"
      and s': "backend self'
                 = del_lock (cache_provider self) (restricted_lock_name user_id) (backend self1)"
      by (auto simp: update_restricted_data_def Let_def split: prod.splits sum.splits)
    have cp: "cache_provider (self\<lparr>backend := s1\<rparr>) = cache_provider self" by simp
    from refresh_writes_sentinel [OF rf st] obtain mapping deleted s where
      "map_of mapping ''_config:change_id''
         = Some (json_dumps (JInt (get_current_change_id (self\<lparr>backend := s1\<rparr>))))"
      "backend self1
         = (if deleted \<noteq> []
            then del_elements (cache_provider self) deleted (Some user_id)
                   (provider_update_restricted_data (cache_provider self) user_id mapping s)
            else provider_update_restricted_data (cache_provider self) user_id mapping s)"
      unfolding cp by blast
    with s' show ?thesis
      by (intro exI [of _ mapping] exI [of _ deleted] exI [of _ s]) simp
  qed
  from u sn k w show ?thesis by (simp add: snapshot_loop_filter)
qed

theorem sentinel_excluded_witness:
  "use_restricted_data_cache restricted_cache
   \<and> get_all_restricted_data restricted_cache 7
       = Some (Inr [(''motion'', [motion_A])], refreshed_cache)
   \<and> update_restricted_data restricted_cache 7 = Some (Inr (), refreshed_cache)
   \<and> ensured restricted_cache
   \<and> set_lock (cache_provider restricted_cache) (restricted_lock_name 7)
         (backend restricted_cache)
       = (True, (backend restricted_cache)\<lparr>locks := [''restricted_data_7'']\<rparr>)
   \<and> user_change_id restricted_cache 7 < get_current_change_id restricted_cache
   \<and> map_of (get_all_data (cache_provider refreshed_cache) (Some 7) (backend refreshed_cache))
        ''_config:change_id'' = Some (Dumps (JInt 100))
   \<and> \<not> is_config_key ''motion''"
proof -
  have g: "get_all_restricted_data restricted_cache 7
       = Some (Inr [(''motion'', [motion_A])], refreshed_cache)"
    by (simp add: restricted_cache_def refreshed_cache_def fixture_defs cache_defs mem_defs
        str_int_1 str_int_7)
  have e: "use_restricted_data_cache restricted_cache"
    by (simp add: restricted_cache_def)
  have l: "set_lock (cache_provider restricted_cache) (restricted_lock_name 7)
         (backend restricted_cache)
       = (True, (backend restricted_cache)\<lparr>locks := [''restricted_data_7'']\<rparr>)"
    by (simp add: restricted_cache_def fixture_defs mem_defs restricted_lock_name_def str_int_7)
  have st: "user_change_id restricted_cache 7 < get_current_change_id restricted_cache"
    by (simp add: restricted_cache_def fixture_defs cache_defs mem_defs)
  from sentinel_excluded [OF e g, of "(backend restricted_cache)\<lparr>locks := [''restricted_data_7'']\<rparr>"]
       g e l st
  show ?thesis
    by (simp add: refreshed_cache_def restricted_cache_def fixture_defs mem_defs
        is_config_key_def)
qed


subsection \<open>The refresh lock\<close>

lemma wait_for_lock_returns:
  assumes "wait_for_lock P lock_name s = Some y"
  shows "\<not> get_lock P lock_name s"
proof -
  have "\<not> get_lock (fst (fst ((P, lock_name), s))) (snd (fst ((P, lock_name), s)))
          (snd ((P, lock_name), s))"
    by (rule wait_for_lock.raw_induct
          [where Pa = "\<lambda>x y. \<not> get_lock (fst (fst x)) (snd (fst x)) (snd x)", rotated, OF assms])
       (auto split: if_splits)
  then show ?thesis by simp
qed

lemma wait_for_lock_held: "get_lock P lock_name s \<Longrightarrow> wait_for_lock P lock_name s = None"
  using wait_for_lock_returns [of P lock_name s] by (cases "wait_for_lock P lock_name s") auto

lemma wait_for_lock_free: "\<not> get_lock P lock_name s \<Longrightarrow> wait_for_lock P lock_name s = Some ()"
  by (subst wait_for_lock.simps) simp


lemma fetch_delta_locks:
  assumes "cache_provider self = memory_provider"
      and "fetch_delta self user_id c = Inr (fd, del, s1)"
  shows "locks s1 = locks (backend self)"
  using assms
  by (auto simp: fetch_delta_def memory_provider_def mem_del_restricted_data_def
      split: sum.splits if_splits prod.splits)

lemma refresh_memory:
  assumes "cache_provider self = memory_provider"
      and "refresh_restricted_data self user_id = (r, self1)"
  shows "locks (backend self1) = locks (backend self)
     \<and> cache_provider self1 = memory_provider
     \<and> use_restricted_data_cache self1 = use_restricted_data_cache self
     \<and> ensured self1 = ensured self"
  using assms fetch_delta_locks [OF assms(1)]
  by (auto simp: refresh_restricted_data_def Let_def memory_provider_def
      mem_update_restricted_data_def mem_del_elements_def
      split: sum.splits if_splits prod.splits option.splits)


lemma update_blocked:
  assumes "cache_provider self = memory_provider" "use_restricted_data_cache self" "ensured self"
      and "mem_get_lock (restricted_lock_name user_id) (backend self)"
  shows "update_restricted_data self user_id = None"
  using assms wait_for_lock_held [of memory_provider "restricted_lock_name user_id" "backend self"]
  by (simp add: update_restricted_data_def memory_provider_def mem_set_lock_def
      mem_get_lock_def Let_def)

text \<open>
  C10. On the in-memory backend: when \<^verbatim>\<open>update_restricted_data\<close>, on an ensured cache
  with the restricted cache on, ends with an exception, the exception was raised inside
  the critical section, the refresh lock of the user is still held afterwards, and the
  next call of \<^verbatim>\<open>update_restricted_data\<close> for that user never returns (nobody else
  releases the lock). By contrast, when \<^verbatim>\<open>ensure_cache\<close> has to build the cache and
  returns, with or without an exception, the build lock is free afterwards.
\<close>

theorem refresh_lock_not_released:
  assumes "cache_provider self = memory_provider"
  shows "(use_restricted_data_cache self \<and> ensured self
          \<and> update_restricted_data self user_id = Some (Inl e, self') \<longrightarrow>
            mem_get_lock (restricted_lock_name user_id) (backend self')
            \<and> update_restricted_data self' user_id = None)
       \<and> ((reset \<or> \<not> mem_data_exists None (backend self))
          \<and> ensure_cache self reset = Some (r, self'') \<longrightarrow>
            \<not> mem_get_lock ''ensure_cache'' (backend self''))"
proof (intro conjI impI)
  assume a: "use_restricted_data_cache self \<and> ensured self
          \<and> update_restricted_data self user_id = Some (Inl e, self')"
  let ?n = "restricted_lock_name user_id"
  from a assms obtain s1 where sl: "mem_set_lock ?n (backend self) = (True, s1)"
    and rf: "refresh_restricted_data (self\<lparr>backend := s1\<rparr>) user_id = (Inl e, self')"
    by (auto simp: update_restricted_data_def Let_def memory_provider_def
        split: prod.splits bool.splits option.splits sum.splits)
  from sl have "?n \<in> set (locks s1)"
    by (auto simp: mem_set_lock_def split: if_splits)
  moreover from refresh_memory [OF _ rf] assms
  have p: "locks (backend self') = locks s1" "cache_provider self' = memory_provider"
    "use_restricted_data_cache self'" "ensured self'"
    using a by simp_all
  ultimately have held: "mem_get_lock ?n (backend self')"
    by (simp add: mem_get_lock_def)
  show "mem_get_lock ?n (backend self')" by (rule held)
  show "update_restricted_data self' user_id = None"
    using update_blocked [OF p(2) p(3) p(4) held] .
next
  assume a: "(reset \<or> \<not> mem_data_exists None (backend self))
          \<and> ensure_cache self reset = Some (r, self'')"
  show "\<not> mem_get_lock ''ensure_cache'' (backend self'')"
  proof (cases "mem_get_lock ''ensure_cache'' (backend self)")
    case True
    then have "ensure_cache self reset = None"
      using a assms wait_for_lock_held [of memory_provider "''ensure_cache''" "backend self"]
      by (auto simp: ensure_cache_def memory_provider_def mem_set_lock_def mem_get_lock_def
          Let_def)
    with a show ?thesis by simp
  next
    case False
    with a assms show ?thesis
      by (auto simp: ensure_cache_def memory_provider_def mem_set_lock_def mem_get_lock_def
          mem_del_lock_def mem_reset_full_cache_def Let_def split: sum.splits)
  qed
qed

theorem refresh_lock_not_released_witness:
  "cache_provider secret_cache = memory_provider
   \<and> use_restricted_data_cache secret_cache \<and> ensured secret_cache
   \<and> update_restricted_data secret_cache 7 = Some (Inl (Raised ''denied''), stuck_cache)
   \<and> mem_get_lock (restricted_lock_name 7) (backend stuck_cache)
   \<and> update_restricted_data stuck_cache 7 = None
   \<and> \<not> mem_data_exists None (backend (new_cache True [(''motion'', broken)] 100))
   \<and> ensure_cache (new_cache True [(''motion'', broken)] 100) False
       = Some (Inl (Raised ''database''), new_cache True [(''motion'', broken)] 100)
   \<and> \<not> mem_get_lock ''ensure_cache'' (backend (new_cache True [(''motion'', broken)] 100))"
proof -
  have p: "cache_provider secret_cache = memory_provider"
    by (simp add: secret_cache_def restricted_cache_def built_cache_def)
  have u: "update_restricted_data secret_cache 7 = Some (Inl (Raised ''denied''), stuck_cache)"
    by (simp add: secret_cache_def stuck_cache_def secret_def restricted_cache_def
        fixture_defs cache_defs mem_defs str_int_1 str_int_7)
  have q: "cache_provider (new_cache True [(''motion'', broken)] 100) = memory_provider"
    by (simp add: new_cache_def)
  have b: "ensure_cache (new_cache True [(''motion'', broken)] 100) False
       = Some (Inl (Raised ''database''), new_cache True [(''motion'', broken)] 100)"
    by (simp add: ensure_cache_def broken_def mem_defs)
  from refresh_lock_not_released [OF p, of 7 "Raised ''denied''" stuck_cache]
       refresh_lock_not_released [OF q, of _ _ _ False "Inl (Raised ''database'')"
          "new_cache True [(''motion'', broken)] 100"]
       p u b
  show ?thesis
    by (simp add: secret_cache_def restricted_cache_def built_cache_def mem_defs)
qed


subsection \<open>Elements a user can no longer see\<close>

lemma restrict_collection_grows:
  assumes "restrict_collection self user_id cs full mapping deleted = Inr (mapping', deleted')"
  shows "set deleted \<subseteq> set deleted'"
  using assms
  by (auto simp: restrict_collection_def split: option.splits sum.splits)

lemma restrict_collection_deleted:
  assumes "restrict_collection self user_id cs full mapping deleted = Inr (mapping', deleted')"
      and "map_of (cachables self) cs = Some c"
      and "restrict_elements c user_id full = Inr restricted"
      and "element_ids full = Inr full_ids"
      and "element_ids restricted = Inr restricted_ids"
      and "i \<in> set full_ids" "i \<notin> set restricted_ids"
  shows "get_element_id cs i \<in> set deleted'"
  using assms
  by (auto simp: restrict_collection_def split: option.splits sum.splits)

lemma restrict_loop_grows:
  "restrict_loop self user_id delta mapping deleted = Inr (mapping', deleted') \<Longrightarrow>
   set deleted \<subseteq> set deleted'"
proof (induction delta arbitrary: mapping deleted)
  case Nil
  then show ?case by simp
next
  case (Cons p delta)
  obtain cs full where p: "p = (cs, full)" by (cases p)
  from Cons.prems p obtain m1 d1 where
    rc: "restrict_collection self user_id cs full mapping deleted = Inr (m1, d1)"
    and rl: "restrict_loop self user_id delta m1 d1 = Inr (mapping', deleted')"
    by (auto split: sum.splits)
  from restrict_collection_grows [OF rc] Cons.IH [OF rl] show ?case by blast
qed

lemma restrict_loop_deleted:
  assumes "restrict_loop self user_id delta mapping deleted = Inr (mapping', deleted')"
      and "(cs, full) \<in> set delta"
      and "map_of (cachables self) cs = Some c"
      and "restrict_elements c user_id full = Inr restricted"
      and "element_ids full = Inr full_ids"
      and "element_ids restricted = Inr restricted_ids"
      and "i \<in> set full_ids" "i \<notin> set restricted_ids"
  shows "get_element_id cs i \<in> set deleted'"
  using assms(1,2)
proof (induction delta arbitrary: mapping deleted)
  case Nil
  then show ?case by simp
next
  case (Cons p delta)
  obtain cs' full' where p: "p = (cs', full')" by (cases p)
  from Cons.prems(1) p obtain m1 d1 where
    rc: "restrict_collection self user_id cs' full' mapping deleted = Inr (m1, d1)"
    and rl: "restrict_loop self user_id delta m1 d1 = Inr (mapping', deleted')"
    by (auto split: sum.splits)
  show ?case
  proof (cases "(cs, full) = p")
    case True
    with p rc have "restrict_collection self user_id cs full mapping deleted = Inr (m1, d1)"
      by simp
    from restrict_collection_deleted [OF this assms(3-8)] restrict_loop_grows [OF rl]
    show ?thesis by blast
  next
    case False
    with Cons.prems(2) have "(cs, full) \<in> set delta" by simp
    from Cons.IH [OF rl this] show ?thesis .
  qed
qed

lemma map_of_delete_all:
  "map_of (delete_all ks d) k = (if k \<in> set ks then None else map_of d k)"
  unfolding delete_all_def
  by (induction ks arbitrary: d) (auto simp: AList.delete_conv)

lemma delete_all_keys: "k \<in> set ks \<Longrightarrow> k \<notin> fst ` set (delete_all ks d)"
  using map_of_delete_all [of ks d k] by (simp add: map_of_eq_None_iff)


lemma restrict_collection_backend:
  "restrict_collection (self\<lparr>backend := b\<rparr>) = restrict_collection self"
  by (intro ext) (simp add: restrict_collection_def)

lemma restrict_loop_backend:
  "restrict_loop (self\<lparr>backend := b\<rparr>) user_id delta mapping deleted
     = restrict_loop self user_id delta mapping deleted"
  by (induction delta arbitrary: mapping deleted)
     (auto simp: restrict_collection_backend split: sum.splits)

lemma reads_locked:
  assumes "cache_provider self = memory_provider"
  shows "get_current_change_id (self\<lparr>backend := (backend self)\<lparr>locks := l\<rparr>\<rparr>)
           = get_current_change_id self"
    and "user_change_id (self\<lparr>backend := (backend self)\<lparr>locks := l\<rparr>\<rparr>) user_id
           = user_change_id self user_id"
    and "get_all_full_data (self\<lparr>backend := (backend self)\<lparr>locks := l\<rparr>\<rparr>)
           = get_all_full_data self"
    and "get_full_data (self\<lparr>backend := (backend self)\<lparr>locks := l\<rparr>\<rparr>) c m
           = get_full_data self c m"
  using assms
  by (simp_all add: get_current_change_id_def user_change_id_def get_all_full_data_def
      get_all_full_data_ordered_def get_full_data_def get_lowest_change_id_def
      memory_provider_def mem_get_current_change_id_def mem_get_change_id_user_def
      mem_get_all_data_def mem_get_data_since_def mem_get_lowest_change_id_def
      the_store_def user_store_def
      cong: sum.case_cong option.case_cong list.case_cong if_cong)

lemma fetch_delta_locked:
  assumes "cache_provider self = memory_provider"
      and "fetch_delta self user_id c = Inr (fd, del, s)"
  shows "fetch_delta (self\<lparr>backend := (backend self)\<lparr>locks := l\<rparr>\<rparr>) user_id c
           = Inr (fd, del, s\<lparr>locks := l\<rparr>)"
  using assms reads_locked [OF assms(1), of l]
  by (auto simp: fetch_delta_def memory_provider_def mem_del_restricted_data_def
      split: sum.splits if_splits)

lemma update_refresh_memory:
  assumes mem: "cache_provider self = memory_provider"
      and on: "use_restricted_data_cache self" "ensured self"
      and upd: "update_restricted_data self user_id = Some (Inr (), self')"
      and stale: "user_change_id self user_id < get_current_change_id self"
      and delta: "fetch_delta self user_id (user_change_id self user_id) = Inr (fd, del, s)"
  shows "\<exists>mapping deleted'.
           restrict_loop self user_id fd [] del = Inr (mapping, deleted')
         \<and> restricted_lock_name user_id \<notin> set (locks (backend self))
         \<and> self' = self\<lparr>backend :=
               (if deleted' \<noteq> []
                then mem_del_elements deleted' (Some user_id)
                       (mem_update_restricted_data user_id
                          (AList.update ''_config:change_id''
                             (Dumps (JInt (get_current_change_id self))) mapping) s)
                else mem_update_restricted_data user_id
                       (AList.update ''_config:change_id''
                          (Dumps (JInt (get_current_change_id self))) mapping) s)
               \<lparr>locks := locks (backend self)\<rparr>\<rparr>"
proof -
  let ?n = "restricted_lock_name user_id"
  have free: "?n \<notin> set (locks (backend self))"
  proof
    assume "?n \<in> set (locks (backend self))"
    then have "update_restricted_data self user_id = None"
      using mem on wait_for_lock_held [of memory_provider ?n "backend self"]
      by (simp add: update_restricted_data_def memory_provider_def mem_set_lock_def
          mem_get_lock_def Let_def)
    with upd show False by simp
  qed
  let ?l = "?n # locks (backend self)"
  let ?locked = "self\<lparr>backend := (backend self)\<lparr>locks := ?l\<rparr>\<rparr>"
  have sl: "set_lock (cache_provider self) ?n (backend self) = (True, backend ?locked)"
    using mem free by (simp add: memory_provider_def mem_set_lock_def)
  have fl: "fetch_delta ?locked user_id (user_change_id self user_id)
       = Inr (fd, del, s\<lparr>locks := ?l\<rparr>)"
    by (rule fetch_delta_locked [OF mem delta])
  have ls: "locks s = locks (backend self)"
    using mem delta
    by (auto simp: fetch_delta_def memory_provider_def mem_del_restricted_data_def
      split: sum.splits if_splits prod.splits)
  from upd sl on obtain r self1 where
    rf: "refresh_restricted_data ?locked user_id = (Inr r, self1)"
    and s': "self' = self1\<lparr>backend := del_lock (cache_provider self) ?n (backend self1)\<rparr>"
    by (auto simp: update_restricted_data_def Let_def split: prod.splits sum.splits)
  from rf stale fl reads_locked [OF mem, of ?l] obtain mapping deleted' where
    rl: "restrict_loop self user_id fd [] del = Inr (mapping, deleted')"
    and s1: "self1 = ?locked\<lparr>backend :=
       (if deleted' \<noteq> []
        then del_elements (cache_provider self) deleted' (Some user_id)
               (provider_update_restricted_data (cache_provider self) user_id
                  (AList.update ''_config:change_id''
                     (json_dumps (JInt (get_current_change_id self))) mapping)
                  (s\<lparr>locks := ?l\<rparr>))
        else provider_update_restricted_data (cache_provider self) user_id
               (AList.update ''_config:change_id''
                  (json_dumps (JInt (get_current_change_id self))) mapping)
               (s\<lparr>locks := ?l\<rparr>))\<rparr>"
    by (auto simp: refresh_restricted_data_def Let_def restrict_loop_backend
        split: sum.splits prod.splits if_splits)
  have "self' = self\<lparr>backend :=
               (if deleted' \<noteq> []
                then mem_del_elements deleted' (Some user_id)
                       (mem_update_restricted_data user_id
                          (AList.update ''_config:change_id''
                             (Dumps (JInt (get_current_change_id self))) mapping) s)
                else mem_update_restricted_data user_id
                       (AList.update ''_config:change_id''
                          (Dumps (JInt (get_current_change_id self))) mapping) s)
               \<lparr>locks := locks (backend self)\<rparr>\<rparr>"
    using s' s1 mem free ls
    by (simp add: memory_provider_def mem_del_lock_def mem_del_elements_def
        mem_update_restricted_data_def json_dumps_def user_store_def
        split: option.splits)
  with rl free show ?thesis by blast
qed


lemma digit_char_digit: "digit_char d \<in> set ''0123456789''"
  unfolding digit_char_def by (rule nth_mem) simp

lemma str_nat_last: "str_nat n \<noteq> [] \<and> last (str_nat n) \<in> set ''0123456789''"
  by (subst (1 2) str_nat.simps) (simp add: digit_char_digit del: set_simps)

lemma str_int_last: "str_int i \<noteq> [] \<and> last (str_int i) \<in> set ''0123456789''"
  using str_nat_last by (simp add: str_int_def del: set_simps)

lemma get_element_id_not_sentinel: "get_element_id cs i \<noteq> ''_config:change_id''"
proof
  assume a: "get_element_id cs i = ''_config:change_id''"
  have "last (get_element_id cs i) = last (str_int i)"
    using str_int_last [of i] by (simp add: get_element_id_def)
  with a have "last (str_int i) = CHR ''d''" by simp
  with str_int_last [of i] show False by simp
qed

lemma update_current:
  assumes "cache_provider self = memory_provider"
      and "use_restricted_data_cache self" "ensured self"
      and "restricted_lock_name user_id \<notin> set (locks (backend self))"
      and "get_current_change_id self \<le> user_change_id self user_id"
  shows "update_restricted_data self user_id = Some (Inr (), self)"
  using assms reads_locked [OF assms(1), of "restricted_lock_name user_id # locks (backend self)"]
  by (simp add: update_restricted_data_def refresh_restricted_data_def Let_def
      memory_provider_def mem_set_lock_def mem_del_lock_def)

lemma since_members_member:
  assumes "last_recorded index m = Some score" "in_range change_id max_change_id score"
  shows "m \<in> set (since_members index change_id max_change_id)"
proof -
  from assms(1) have "m \<in> snd ` set index"
    by (force simp: last_recorded_def dest!: map_of_SomeD)
  with assms show ?thesis by (simp add: since_members_def)
qed


lemma digit_value_digit_char: "digit_value (digit_char d) = Some (d mod 10)"
proof -
  define k where "k = d mod 10"
  then have "k < 10" by simp
  then have "k = 0 \<or> k = 1 \<or> k = 2 \<or> k = 3 \<or> k = 4 \<or> k = 5 \<or> k = 6 \<or> k = 7 \<or> k = 8 \<or> k = 9"
    by arith
  then have "digit_value (''0123456789'' ! k) = Some k"
    unfolding digit_value_def by (elim disjE) simp_all
  then show ?thesis by (simp add: digit_char_def k_def)
qed

lemma nat_of_digits_snoc:
  "nat_of_digits acc (cs @ [c])
     = (case nat_of_digits acc cs of
          None \<Rightarrow> None
        | Some a \<Rightarrow> (case digit_value c of None \<Rightarrow> None | Some d \<Rightarrow> Some (10 * a + d)))"
  by (induction cs arbitrary: acc) (auto split: option.splits)

lemma nat_of_digits_str_nat: "nat_of_digits 0 (str_nat n) = Some n"
proof (induction n rule: str_nat.induct)
  case (1 n)
  show ?case
  proof (cases "n < 10")
    case True
    then show ?thesis
      by (subst str_nat.simps) (simp add: digit_value_digit_char)
  next
    case False
    with 1 have "nat_of_digits 0 (str_nat (n div 10)) = Some (n div 10)" by simp
    with False show ?thesis
      by (subst str_nat.simps) (simp add: nat_of_digits_snoc digit_value_digit_char)
  qed
qed

lemma str_nat_chars: "c \<in> set (str_nat n) \<Longrightarrow> c \<in> set ''0123456789''"
proof (induction n rule: str_nat.induct)
  case (1 n)
  show ?case
  proof (cases "n < 10")
    case True
    with "1.prems" have "c = digit_char n"
      by (subst (asm) str_nat.simps) simp
    then show ?thesis by (simp only: digit_char_digit)
  next
    case False
    with "1.prems" have "c \<in> set (str_nat (n div 10)) \<or> c = digit_char n"
      by (subst (asm) str_nat.simps) auto
    then show ?thesis
    proof
      assume "c \<in> set (str_nat (n div 10))"
      with 1 False show ?thesis by simp
    next
      assume "c = digit_char n"
      then show ?thesis by (simp only: digit_char_digit)
    qed
  qed
qed

lemma str_nat_nonempty: "str_nat n \<noteq> []"
  by (subst str_nat.simps) simp

lemma int_of_str_str_int: "int_of_str (str_int i) = Some i"
proof (cases "i < 0")
  case True
  then show ?thesis
    by (simp add: str_int_def int_of_str_def str_nat_nonempty nat_of_digits_str_nat)
next
  case False
  obtain c cs where s: "str_nat (nat i) = c # cs"
    using str_nat_nonempty [of "nat i"] by (cases "str_nat (nat i)") auto
  then have "c \<in> set ''0123456789''" using str_nat_chars [of c "nat i"] by simp
  then have "c \<noteq> CHR ''-''" by auto
  with False s nat_of_digits_str_nat [of "nat i"] show ?thesis
    by (simp add: str_int_def int_of_str_def)
qed

lemma str_int_no_separator: "CHR '':'' \<notin> set (str_int i)"
proof -
  have "CHR '':'' \<notin> set (str_nat n)" for n
    using str_nat_chars [of "CHR '':''" n] by auto
  then show ?thesis by (simp add: str_int_def)
qed

lemma split_get_element_id: "split_element_id (get_element_id cs i) = Inr (cs, i)"
proof -
  let ?t = "str_int i"
  have r: "rev (get_element_id cs i) = rev ?t @ CHR '':'' # rev cs"
    by (simp add: get_element_id_def)
  have p: "\<forall>c \<in> set (rev ?t). c \<noteq> CHR '':''"
    using str_int_no_separator [of i] by auto
  have t: "takeWhile (\<lambda>c. c \<noteq> CHR '':'') (rev ?t @ CHR '':'' # rev cs) = rev ?t"
    using p by (simp add: takeWhile_tail)
  have d: "dropWhile (\<lambda>c. c \<noteq> CHR '':'') (rev ?t @ CHR '':'' # rev cs) = CHR '':'' # rev cs"
    using p by (simp add: dropWhile_append3)
  show ?thesis
    unfolding split_element_id_def Let_def r t d
    by (simp add: int_of_str_str_int)
qed

lemma get_element_id_inject:
  assumes "get_element_id cs i = get_element_id cs' j"
  shows "cs = cs' \<and> i = j"
proof -
  have "Inr (cs, i) = split_element_id (get_element_id cs i)"
    by (simp only: split_get_element_id)
  also have "\<dots> = split_element_id (get_element_id cs' j)"
    by (simp only: assms)
  also have "\<dots> = Inr (cs', j)"
    by (simp only: split_get_element_id)
  finally show ?thesis by simp
qed


lemma element_ids_member:
  "element_ids es = Inr ids \<Longrightarrow> e \<in> set es \<Longrightarrow> element_id_of e = Inr j \<Longrightarrow> j \<in> set ids"
  by (induction es arbitrary: ids) (auto split: sum.splits)

lemma add_to_mapping_keys:
  "add_to_mapping cs es mapping = Inr mapping' \<Longrightarrow> k \<in> fst ` set mapping' \<Longrightarrow>
   k \<in> fst ` set mapping
   \<or> (\<exists>e \<in> set es. \<exists>j. element_id_of e = Inr j \<and> k = get_element_id cs j)"
proof (induction cs es mapping rule: add_to_mapping.induct)
  case (1 cs mapping)
  then show ?case by simp
next
  case (2 cs e rest mapping)
  from "2.prems"(1) obtain i where i: "element_id_of e = Inr i"
    and r: "add_to_mapping cs rest
              (AList.update (get_element_id cs i) (json_dumps e) mapping) = Inr mapping'"
    by (auto split: sum.splits)
  from "2.IH" [OF i r "2.prems"(2)]
  have "k \<in> fst ` set (AList.update (get_element_id cs i) (json_dumps e) mapping)
     \<or> (\<exists>e \<in> set rest. \<exists>j. element_id_of e = Inr j \<and> k = get_element_id cs j)" .
  then show ?case
  proof
    assume "k \<in> fst ` set (AList.update (get_element_id cs i) (json_dumps e) mapping)"
    then have "k = get_element_id cs i \<or> k \<in> fst ` set mapping"
      by (simp add: AList.dom_update)
    with i show ?thesis by auto
  next
    assume "\<exists>e \<in> set rest. \<exists>j. element_id_of e = Inr j \<and> k = get_element_id cs j"
    then show ?thesis by auto
  qed
qed

lemma restrict_collection_keys:
  assumes "restrict_collection self user_id cs full mapping deleted = Inr (mapping', deleted')"
      and "k \<in> fst ` set mapping'"
  shows "k \<in> fst ` set mapping
     \<or> (\<exists>c r rids j. map_of (cachables self) cs = Some c
           \<and> restrict_elements c user_id full = Inr r \<and> element_ids r = Inr rids
           \<and> j \<in> set rids \<and> k = get_element_id cs j)"
proof -
  from assms(1) obtain c r fids rids where
    c: "map_of (cachables self) cs = Some c"
    and r: "restrict_elements c user_id full = Inr r"
    and rids: "element_ids r = Inr rids"
    and a: "add_to_mapping cs r mapping = Inr mapping'"
    by (auto simp: restrict_collection_def split: option.splits sum.splits)
  from add_to_mapping_keys [OF a assms(2)] show ?thesis
  proof
    assume "k \<in> fst ` set mapping"
    then show ?thesis by simp
  next
    assume "\<exists>e \<in> set r. \<exists>j. element_id_of e = Inr j \<and> k = get_element_id cs j"
    then obtain e j where "e \<in> set r" "element_id_of e = Inr j" "k = get_element_id cs j"
      by blast
    with element_ids_member [OF rids] c r rids show ?thesis by blast
  qed
qed

lemma restrict_loop_keys:
  "restrict_loop self user_id delta mapping deleted = Inr (mapping', deleted') \<Longrightarrow>
   k \<in> fst ` set mapping' \<Longrightarrow>
   k \<in> fst ` set mapping
   \<or> (\<exists>cs full c r rids j. (cs, full) \<in> set delta \<and> map_of (cachables self) cs = Some c
         \<and> restrict_elements c user_id full = Inr r \<and> element_ids r = Inr rids
         \<and> j \<in> set rids \<and> k = get_element_id cs j)"
proof (induction delta arbitrary: mapping deleted)
  case Nil
  then show ?case by simp
next
  case (Cons p delta)
  obtain cs full where p: "p = (cs, full)" by (cases p)
  from Cons.prems(1) p obtain m1 d1 where
    rc: "restrict_collection self user_id cs full mapping deleted = Inr (m1, d1)"
    and rl: "restrict_loop self user_id delta m1 d1 = Inr (mapping', deleted')"
    by (auto split: sum.splits)
  from Cons.IH [OF rl Cons.prems(2)] show ?case
  proof
    assume "k \<in> fst ` set m1"
    from restrict_collection_keys [OF rc this] show ?thesis
    proof
      assume "k \<in> fst ` set mapping"
      then show ?thesis by simp
    next
      assume "\<exists>c r rids j. map_of (cachables self) cs = Some c
           \<and> restrict_elements c user_id full = Inr r \<and> element_ids r = Inr rids
           \<and> j \<in> set rids \<and> k = get_element_id cs j"
      then obtain c r rids j where "map_of (cachables self) cs = Some c"
        "restrict_elements c user_id full = Inr r" "element_ids r = Inr rids"
        "j \<in> set rids" "k = get_element_id cs j" by blast
      moreover have "(cs, full) \<in> set (p # delta)" using p by simp
      ultimately show ?thesis by blast
    qed
  next
    assume "\<exists>cs full c r rids j. (cs, full) \<in> set delta \<and> map_of (cachables self) cs = Some c
         \<and> restrict_elements c user_id full = Inr r \<and> element_ids r = Inr rids
         \<and> j \<in> set rids \<and> k = get_element_id cs j"
    then obtain cs' full' c r rids j where "(cs', full') \<in> set delta"
      "map_of (cachables self) cs' = Some c"
      "restrict_elements c user_id full' = Inr r" "element_ids r = Inr rids"
      "j \<in> set rids" "k = get_element_id cs' j" by blast
    moreover then have "(cs', full') \<in> set (p # delta)" by simp
    ultimately show ?thesis by blast
  qed
qed

lemma upsert_all_keys: "fst ` set (upsert_all m d) = fst ` set d \<union> fst ` set m"
proof (induction m arbitrary: d)
  case Nil
  then show ?case by (simp add: upsert_all_def)
next
  case (Cons p m)
  obtain k v where p: "p = (k, v)" by (cases p)
  have "upsert_all (p # m) d = upsert_all m (AList.update k v d)"
    by (simp add: upsert_all_def p)
  then have "fst ` set (upsert_all (p # m) d)
      = fst ` set (AList.update k v d) \<union> fst ` set m"
    by (simp only: Cons.IH)
  also have "\<dots> = fst ` set d \<union> fst ` set (p # m)"
    unfolding AList.dom_update by (auto simp: p)
  finally show ?case .
qed

lemma delete_all_keys_subset: "k \<in> fst ` set (delete_all ks d) \<Longrightarrow> k \<in> fst ` set d"
proof -
  assume "k \<in> fst ` set (delete_all ks d)"
  then have "map_of (delete_all ks d) k \<noteq> None" by (simp add: map_of_eq_None_iff)
  then have "map_of d k \<noteq> None" by (simp add: map_of_delete_all split: if_splits)
  then show ?thesis by (simp add: map_of_eq_None_iff)
qed

lemma since_loop_deleted_iff:
  "k \<in> set (snd (since_loop ms d changed deleted))
     \<longleftrightarrow> k \<in> set deleted \<or> (k \<in> set ms \<and> map_of d k = None)"
  by (induction ms d changed deleted rule: since_loop.induct) (auto split: option.splits)

lemma since_members_iff:
  "m \<in> set (since_members index change_id max_change_id)
     \<longleftrightarrow> (\<exists>score. last_recorded index m = Some score
                   \<and> in_range change_id max_change_id score)"
proof
  assume "m \<in> set (since_members index change_id max_change_id)"
  then show "\<exists>score. last_recorded index m = Some score
                   \<and> in_range change_id max_change_id score"
    by (auto simp: since_members_def split: option.splits)
next
  assume "\<exists>score. last_recorded index m = Some score
                   \<and> in_range change_id max_change_id score"
  then show "m \<in> set (since_members index change_id max_change_id)"
    using since_members_member by blast
qed


lemma fetch_delta_store:
  assumes "cache_provider x = memory_provider"
      and "fetch_delta x user_id c = Inr (fd, del, s)"
  shows "fst ` set (user_store user_id s) \<subseteq> fst ` set (user_store user_id (backend x))"
  using assms
  by (auto simp: fetch_delta_def memory_provider_def mem_del_restricted_data_def
      user_store_def AList.delete_conv' split: sum.splits if_splits prod.splits)

lemma fetch_delta_locked_error:
  assumes "cache_provider x = memory_provider"
      and "fetch_delta x user_id c = Inl e"
  shows "fetch_delta (x\<lparr>backend := (backend x)\<lparr>locks := l\<rparr>\<rparr>) user_id c = Inl e"
  using assms reads_locked [OF assms(1), of l]
  by (auto simp: fetch_delta_def split: sum.splits if_splits)

lemma update_cases:
  assumes mem: "cache_provider x = memory_provider"
      and on: "use_restricted_data_cache x"
      and upd: "update_restricted_data x user_id = Some (Inr (), y)"
  shows "ensured x \<and> restricted_lock_name user_id \<notin> set (locks (backend x))
     \<and> (user_change_id x user_id < get_current_change_id x \<longrightarrow>
          (\<exists>fd del s. fetch_delta x user_id (user_change_id x user_id) = Inr (fd, del, s)))"
proof -
  let ?n = "restricted_lock_name user_id"
  have ens: "ensured x"
    using on upd by (auto simp: update_restricted_data_def split: if_splits)
  have free: "?n \<notin> set (locks (backend x))"
  proof
    assume "?n \<in> set (locks (backend x))"
    then have "update_restricted_data x user_id = None"
      using mem on ens wait_for_lock_held [of memory_provider ?n "backend x"]
      by (simp add: update_restricted_data_def memory_provider_def mem_set_lock_def
          mem_get_lock_def Let_def)
    with upd show False by simp
  qed
  have "\<exists>fd del s. fetch_delta x user_id (user_change_id x user_id) = Inr (fd, del, s)"
    if stale: "user_change_id x user_id < get_current_change_id x"
  proof (cases "fetch_delta x user_id (user_change_id x user_id)")
    case (Inl e)
    let ?l = "?n # locks (backend x)"
    let ?locked = "x\<lparr>backend := (backend x)\<lparr>locks := ?l\<rparr>\<rparr>"
    have sl: "set_lock (cache_provider x) ?n (backend x) = (True, backend ?locked)"
      using mem free by (simp add: memory_provider_def mem_set_lock_def)
    have "fetch_delta ?locked user_id (user_change_id x user_id) = Inl e"
      by (rule fetch_delta_locked_error [OF mem Inl])
    with stale reads_locked [OF mem, of ?l]
    have "fst (refresh_restricted_data ?locked user_id) = Inl e"
      by (simp add: refresh_restricted_data_def Let_def)
    with upd sl on ens have False
      by (auto simp: update_restricted_data_def Let_def split: prod.splits sum.splits)
    then show ?thesis ..
  next
    case (Inr t)
    then show ?thesis by (cases t) auto
  qed
  with ens free show ?thesis by blast
qed

lemma refresh_keeps_out:
  assumes mem: "cache_provider x = memory_provider"
      and on: "use_restricted_data_cache x"
      and upd: "update_restricted_data x user_id = Some (Inr (), y)"
      and absent: "get_element_id cs i \<notin> fst ` set (user_store user_id (backend x))"
      and cb: "map_of (cachables x) cs = Some c"
      and excl: "\<And>fd del s full r rids.
                   user_change_id x user_id < get_current_change_id x \<Longrightarrow>
                   fetch_delta x user_id (user_change_id x user_id) = Inr (fd, del, s) \<Longrightarrow>
                   (cs, full) \<in> set fd \<Longrightarrow> restrict_elements c user_id full = Inr r \<Longrightarrow>
                   element_ids r = Inr rids \<Longrightarrow> i \<notin> set rids"
  shows "get_element_id cs i \<notin> fst ` set (user_store user_id (backend y))"
proof (cases "user_change_id x user_id < get_current_change_id x")
  case False
  from update_cases [OF mem on upd]
  have ens: "ensured x" and free: "restricted_lock_name user_id \<notin> set (locks (backend x))"
    by simp_all
  from False have "get_current_change_id x \<le> user_change_id x user_id" by simp
  from update_current [OF mem on ens free this] upd have "y = x" by simp
  with absent show ?thesis by simp
next
  case True
  let ?K = "get_element_id cs i"
  from update_cases [OF mem on upd] True obtain fd del s where
    ens: "ensured x"
    and delta: "fetch_delta x user_id (user_change_id x user_id) = Inr (fd, del, s)"
    by blast
  from update_refresh_memory [OF mem on ens upd True delta]
  obtain mapping deleted' where
    rl: "restrict_loop x user_id fd [] del = Inr (mapping, deleted')"
    and y: "y = x\<lparr>backend :=
               (if deleted' \<noteq> []
                then mem_del_elements deleted' (Some user_id)
                       (mem_update_restricted_data user_id
                          (AList.update ''_config:change_id''
                             (Dumps (JInt (get_current_change_id x))) mapping) s)
                else mem_update_restricted_data user_id
                       (AList.update ''_config:change_id''
                          (Dumps (JInt (get_current_change_id x))) mapping) s)
               \<lparr>locks := locks (backend x)\<rparr>\<rparr>"
    by blast
  let ?m = "AList.update ''_config:change_id'' (Dumps (JInt (get_current_change_id x))) mapping"
  have store: "user_store user_id (backend y)
       = (if deleted' \<noteq> [] then delete_all deleted' (upsert_all ?m (user_store user_id s))
          else upsert_all ?m (user_store user_id s))"
    using y
    by (simp add: mem_del_elements_def mem_update_restricted_data_def user_store_def
        AList.update_conv')
  have nm: "?K \<notin> fst ` set mapping"
  proof
    assume "?K \<in> fst ` set mapping"
    from restrict_loop_keys [OF rl this]
    obtain cs' full c' r rids j where d: "(cs', full) \<in> set fd"
      "map_of (cachables x) cs' = Some c'" "restrict_elements c' user_id full = Inr r"
      "element_ids r = Inr rids" "j \<in> set rids" "?K = get_element_id cs' j"
      by auto
    from get_element_id_inject [OF d(6)] have "cs' = cs" "j = i" by simp_all
    with d cb have "(cs, full) \<in> set fd" "restrict_elements c user_id full = Inr r"
      "i \<in> set rids" by simp_all
    with excl [OF True delta this(1,2) d(4)] show False by simp
  qed
  have "?K \<notin> fst ` set (upsert_all ?m (user_store user_id s))"
    using nm absent fetch_delta_store [OF mem delta] get_element_id_not_sentinel [of cs i]
    by (auto simp: upsert_all_keys AList.dom_update)
  then show ?thesis
    unfolding store using delete_all_keys_subset [of ?K deleted'] by auto
qed

lemma reads_after:
  assumes on: "use_restricted_data_cache x"
      and upd: "update_restricted_data x user_id = Some (Inr (), y)"
      and mem: "cache_provider y = memory_provider"
      and absent: "k \<notin> fst ` set (user_store user_id (backend y))"
  shows "get_all_restricted_data x user_id
            = Some (snapshot_loop (user_store user_id (backend y)) [], y)
       \<and> (change_id \<noteq> 0
            \<and> get_restricted_data x user_id change_id max_change_id
                  = Some (Inr (changed, deleted), z) \<longrightarrow>
              (k \<in> set deleted
                 \<longleftrightarrow> (\<exists>score. last_recorded (change_index (backend y)) k = Some score
                               \<and> in_range change_id max_change_id score)))"
proof (intro conjI impI)
  show "get_all_restricted_data x user_id
            = Some (snapshot_loop (user_store user_id (backend y)) [], y)"
    using on upd mem
    by (simp add: get_all_restricted_data_def memory_provider_def mem_get_all_data_def
        the_store_def)
next
  assume a: "change_id \<noteq> 0
            \<and> get_restricted_data x user_id change_id max_change_id
                  = Some (Inr (changed, deleted), z)"
  then have "deleted = snd (mem_get_data_since change_id (Some user_id) max_change_id
                          (backend y))"
    using on upd mem
    by (auto simp: get_restricted_data_def memory_provider_def
        split: sum.splits if_splits prod.splits)
  moreover have "map_of (user_store user_id (backend y)) k = None"
    using absent by (simp add: map_of_eq_None_iff)
  ultimately show "k \<in> set deleted
                 \<longleftrightarrow> (\<exists>score. last_recorded (change_index (backend y)) k = Some score
                               \<and> in_range change_id max_change_id score)"
    by (simp add: mem_get_data_since_def the_store_def since_loop_deleted_iff
        since_members_iff)
qed


lemma refresh_provider:
  "refresh_restricted_data self user_id = (r, self1) \<Longrightarrow>
   cache_provider self1 = cache_provider self"
  by (auto simp: refresh_restricted_data_def Let_def split: sum.splits prod.splits if_splits)

lemma update_provider:
  assumes "update_restricted_data x user_id = Some (r, y)"
  shows "cache_provider y = cache_provider x"
proof (cases "use_restricted_data_cache x \<and> ensured x")
  case False
  with assms show ?thesis by (auto simp: update_restricted_data_def split: if_splits)
next
  case True
  obtain ok s1 where sl: "set_lock (cache_provider x) (restricted_lock_name user_id) (backend x)
      = (ok, s1)" by (cases "set_lock (cache_provider x) (restricted_lock_name user_id) (backend x)")
  show ?thesis
  proof (cases ok)
    case False
    with assms True sl show ?thesis
      by (auto simp: update_restricted_data_def Let_def split: option.splits)
  next
    case ok: True
    obtain r1 self1 where rf: "refresh_restricted_data (x\<lparr>backend := s1\<rparr>) user_id = (r1, self1)"
      by (cases "refresh_restricted_data (x\<lparr>backend := s1\<rparr>) user_id")
    from refresh_provider [OF rf] have "cache_provider self1 = cache_provider x" by simp
    with assms True sl ok rf show ?thesis
      by (auto simp: update_restricted_data_def Let_def split: sum.splits)
  qed
qed

text \<open>
  C5, as amended. On the in-memory backend, let \<^verbatim>\<open>update_restricted_data\<close> for a
  user refresh the user's store (the user is behind the current change id) and return.
  Every id that occurs in the fetched full-data delta of a collection and not in what the
  collection's permission filter returns for the user is in the deletion list the loop
  builds, and its key is not in the user's store afterwards. The restricted snapshot that
  performs this refresh is taken from that store, so it does not contain the element. A
  \<^verbatim>\<open>get_restricted_data\<close> that performs this refresh with a change id other than 0
  reports the key as deleted if and only if the ChangeId that the change index recorded
  last for the key lies in the range asked for. Every later refresh that returns leaves
  the key out of the user's store, and the snapshot it serves is taken from that store,
  as long as the collection's filter does not return the id in that refresh.
\<close>

theorem visibility_loss_deleted:
  assumes mem: "cache_provider self = memory_provider"
      and on: "use_restricted_data_cache self" "ensured self"
      and upd: "update_restricted_data self user_id = Some (Inr (), self')"
      and stale: "user_change_id self user_id < get_current_change_id self"
      and delta: "fetch_delta self user_id (user_change_id self user_id)
                    = Inr (full_data_elements, deleted_elements, s)"
      and coll: "(collection_string, full_elements) \<in> set full_data_elements"
      and cb: "map_of (cachables self) collection_string = Some c"
      and filt: "restrict_elements c user_id full_elements = Inr restricted_elements"
      and ids: "element_ids full_elements = Inr full_data_ids"
               "element_ids restricted_elements = Inr restricted_data_ids"
      and lost: "item_id \<in> set full_data_ids" "item_id \<notin> set restricted_data_ids"
  shows "(\<exists>mapping deleted'.
            restrict_loop self user_id full_data_elements [] deleted_elements
              = Inr (mapping, deleted')
          \<and> get_element_id collection_string item_id \<in> set deleted')
       \<and> get_element_id collection_string item_id
            \<notin> fst ` set (user_store user_id (backend self'))
       \<and> get_all_restricted_data self user_id
            = Some (snapshot_loop (user_store user_id (backend self')) [], self')
       \<and> (change_id \<noteq> 0
            \<and> get_restricted_data self user_id change_id max_change_id
                  = Some (Inr (changed, deleted), self'') \<longrightarrow>
              (get_element_id collection_string item_id \<in> set deleted
                 \<longleftrightarrow> (\<exists>score.
                        last_recorded (change_index (backend self'))
                          (get_element_id collection_string item_id) = Some score
                      \<and> in_range change_id max_change_id score)))
       \<and> (cache_provider later = memory_provider
            \<and> use_restricted_data_cache later
            \<and> cachables later = cachables self
            \<and> get_element_id collection_string item_id
                 \<notin> fst ` set (user_store user_id (backend later))
            \<and> update_restricted_data later user_id = Some (Inr (), later')
            \<and> (\<forall>fd del t full r rids.
                   user_change_id later user_id < get_current_change_id later
                 \<and> fetch_delta later user_id (user_change_id later user_id) = Inr (fd, del, t)
                 \<and> (collection_string, full) \<in> set fd
                 \<and> restrict_elements c user_id full = Inr r
                 \<and> element_ids r = Inr rids \<longrightarrow>
                   item_id \<notin> set rids) \<longrightarrow>
              get_element_id collection_string item_id
                \<notin> fst ` set (user_store user_id (backend later'))
            \<and> get_all_restricted_data later user_id
                = Some (snapshot_loop (user_store user_id (backend later')) [], later'))"
proof -
  let ?K = "get_element_id collection_string item_id"
  from update_refresh_memory [OF mem on upd stale delta]
  obtain mapping deleted' where
    rl: "restrict_loop self user_id full_data_elements [] deleted_elements
           = Inr (mapping, deleted')"
    and s': "self' = self\<lparr>backend :=
               (if deleted' \<noteq> []
                then mem_del_elements deleted' (Some user_id)
                       (mem_update_restricted_data user_id
                          (AList.update ''_config:change_id''
                             (Dumps (JInt (get_current_change_id self))) mapping) s)
                else mem_update_restricted_data user_id
                       (AList.update ''_config:change_id''
                          (Dumps (JInt (get_current_change_id self))) mapping) s)
               \<lparr>locks := locks (backend self)\<rparr>\<rparr>"
    by blast
  let ?m = "AList.update ''_config:change_id'' (Dumps (JInt (get_current_change_id self))) mapping"
  have K: "?K \<in> set deleted'"
    by (rule restrict_loop_deleted [OF rl coll cb filt ids lost])
  then have ne: "deleted' \<noteq> []" by auto
  have store: "user_store user_id (backend self')
       = delete_all deleted' (upsert_all ?m (user_store user_id s))"
    using s' ne
    by (simp add: mem_del_elements_def mem_update_restricted_data_def user_store_def
        AList.update_conv')
  have absent: "?K \<notin> fst ` set (user_store user_id (backend self'))"
    unfolding store by (rule delete_all_keys [OF K])
  have mem': "cache_provider self' = memory_provider"
    using update_provider [OF upd] mem by simp
  have now: "get_all_restricted_data self user_id
            = Some (snapshot_loop (user_store user_id (backend self')) [], self')
       \<and> (change_id \<noteq> 0
            \<and> get_restricted_data self user_id change_id max_change_id
                  = Some (Inr (changed, deleted), self'') \<longrightarrow>
              (?K \<in> set deleted
                 \<longleftrightarrow> (\<exists>score. last_recorded (change_index (backend self')) ?K = Some score
                               \<and> in_range change_id max_change_id score)))"
    by (rule reads_after [OF on(1) upd mem' absent])
  have later: "?K \<notin> fst ` set (user_store user_id (backend later'))
            \<and> get_all_restricted_data later user_id
                = Some (snapshot_loop (user_store user_id (backend later')) [], later')"
    if l: "cache_provider later = memory_provider
            \<and> use_restricted_data_cache later
            \<and> cachables later = cachables self
            \<and> ?K \<notin> fst ` set (user_store user_id (backend later))
            \<and> update_restricted_data later user_id = Some (Inr (), later')
            \<and> (\<forall>fd del t full r rids.
                   user_change_id later user_id < get_current_change_id later
                 \<and> fetch_delta later user_id (user_change_id later user_id) = Inr (fd, del, t)
                 \<and> (collection_string, full) \<in> set fd
                 \<and> restrict_elements c user_id full = Inr r
                 \<and> element_ids r = Inr rids \<longrightarrow>
                   item_id \<notin> set rids)"
  proof -
    from l have lm: "cache_provider later = memory_provider"
      and lo: "use_restricted_data_cache later"
      and la: "?K \<notin> fst ` set (user_store user_id (backend later))"
      and lu: "update_restricted_data later user_id = Some (Inr (), later')"
      and lc: "map_of (cachables later) collection_string = Some c"
      using cb by simp_all
    have out: "?K \<notin> fst ` set (user_store user_id (backend later'))"
    proof (rule refresh_keeps_out [OF lm lo lu la lc])
      fix fd del t full r rids
      assume "user_change_id later user_id < get_current_change_id later"
        "fetch_delta later user_id (user_change_id later user_id) = Inr (fd, del, t)"
        "(collection_string, full) \<in> set fd" "restrict_elements c user_id full = Inr r"
        "element_ids r = Inr rids"
      with l show "item_id \<notin> set rids" by blast
    qed
    have "cache_provider later' = memory_provider"
      using update_provider [OF lu] lm by simp
    from reads_after [OF lo lu this out] out show ?thesis by blast
  qed
  from rl K absent now later show ?thesis by blast
qed


theorem visibility_loss_deleted_witness:
  "cache_provider lost_cache = memory_provider
   \<and> use_restricted_data_cache lost_cache \<and> ensured lost_cache
   \<and> update_restricted_data lost_cache 7 = Some (Inr (), hidden_cache)
   \<and> user_change_id lost_cache 7 < get_current_change_id lost_cache
   \<and> fetch_delta lost_cache 7 (user_change_id lost_cache 7)
       = Inr ([(''motion'', [motion_B])], [], backend lost_cache)
   \<and> map_of (cachables lost_cache) ''motion'' = Some hidden
   \<and> restrict_elements hidden 7 [motion_B] = Inr []
   \<and> element_ids [motion_B] = Inr [1]
   \<and> get_element_id ''motion'' 1 = ''motion:1''
   \<and> map_of (user_store 7 (backend lost_cache)) ''motion:1'' = Some (Dumps motion_A)
   \<and> restrict_loop lost_cache 7 [(''motion'', [motion_B])] [] [] = Inr ([], [''motion:1''])
   \<and> ''motion:1'' \<notin> fst ` set (user_store 7 (backend hidden_cache))
   \<and> get_all_restricted_data lost_cache 7 = Some (Inr [], hidden_cache)
   \<and> get_restricted_data lost_cache 7 101 (- 1)
       = Some (Inr ([], [''motion:1'']), hidden_cache)
   \<and> last_recorded (change_index (backend hidden_cache)) ''motion:1'' = Some 101
   \<and> in_range 101 (- 1) 101
   \<and> cachables later_cache = cachables lost_cache
   \<and> ''motion:1'' \<notin> fst ` set (user_store 7 (backend later_cache))
   \<and> user_change_id later_cache 7 < get_current_change_id later_cache
   \<and> fetch_delta later_cache 7 (user_change_id later_cache 7)
       = Inr ([(''motion'', [motion_A])], [], backend later_cache)
   \<and> update_restricted_data later_cache 7 = Some (Inr (), later_refreshed_cache)
   \<and> ''motion:1'' \<notin> fst ` set (user_store 7 (backend later_refreshed_cache))
   \<and> get_all_restricted_data later_cache 7 = Some (Inr [], later_refreshed_cache)"
proof -
  have h1: "cache_provider lost_cache = memory_provider"
    and h2: "use_restricted_data_cache lost_cache" and h3: "ensured lost_cache"
    by (simp_all add: lost_cache_def)
  have h4: "update_restricted_data lost_cache 7 = Some (Inr (), hidden_cache)"
    by (simp add: lost_cache_def hidden_cache_def hidden_def fixture_defs cache_defs mem_defs
        str_int_1 str_int_7)
  have h5: "user_change_id lost_cache 7 < get_current_change_id lost_cache"
    by (simp add: lost_cache_def cache_defs mem_defs)
  have h6: "fetch_delta lost_cache 7 (user_change_id lost_cache 7)
       = Inr ([(''motion'', [motion_B])], [], backend lost_cache)"
    by (simp add: lost_cache_def fixture_defs cache_defs mem_defs)
  have h7: "(''motion'', [motion_B]) \<in> set [(''motion'', [motion_B])]" by simp
  have h8: "map_of (cachables lost_cache) ''motion'' = Some hidden"
    by (simp add: lost_cache_def)
  have h9: "restrict_elements hidden 7 [motion_B] = Inr []"
    by (simp add: hidden_def)
  have h10: "element_ids [motion_B] = Inr [1]" "element_ids [] = Inr []"
    by (simp_all add: motion_B_def)
  have h11: "(1::int) \<in> set [1]" "(1::int) \<notin> set []" by simp_all
  have k: "get_element_id ''motion'' 1 = ''motion:1''"
    by (simp add: get_element_id_def str_int_1)
  have lr: "last_recorded (change_index (backend hidden_cache)) ''motion:1'' = Some 101"
    by (simp add: hidden_cache_def lost_cache_def last_recorded_def)
  have g: "get_restricted_data lost_cache 7 101 (- 1)
       = Some (Inr ([], [''motion:1'']), hidden_cache)"
    by (simp add: get_restricted_data_def lost_cache_def hidden_cache_def hidden_def
        fixture_defs cache_defs mem_defs str_int_1 str_int_7)
  have old: "map_of (user_store 7 (backend lost_cache)) ''motion:1'' = Some (Dumps motion_A)"
    by (simp add: lost_cache_def user_store_def)
  have rl: "restrict_loop lost_cache 7 [(''motion'', [motion_B])] [] [] = Inr ([], [''motion:1''])"
    by (simp add: lost_cache_def hidden_def fixture_defs cache_defs str_int_1)
  have sn: "snapshot_loop (user_store 7 (backend hidden_cache)) [] = Inr []"
    by (simp add: hidden_cache_def lost_cache_def user_store_def is_config_key_def)
  have l1: "cache_provider later_cache = memory_provider"
    "use_restricted_data_cache later_cache" "cachables later_cache = cachables lost_cache"
    by (simp_all add: later_cache_def hidden_cache_def lost_cache_def)
  have l2: "''motion:1'' \<notin> fst ` set (user_store 7 (backend later_cache))"
    by (simp add: later_cache_def hidden_cache_def lost_cache_def user_store_def)
  have l3: "update_restricted_data later_cache 7 = Some (Inr (), later_refreshed_cache)"
    by (simp add: later_cache_def later_refreshed_cache_def lost_cache_def hidden_cache_def
        hidden_def fixture_defs cache_defs mem_defs str_int_1 str_int_7)
  have l4: "user_change_id later_cache 7 < get_current_change_id later_cache"
    by (simp add: later_cache_def hidden_cache_def lost_cache_def cache_defs mem_defs)
  have l5: "fetch_delta later_cache 7 (user_change_id later_cache 7)
       = Inr ([(''motion'', [motion_A])], [], backend later_cache)"
    by (simp add: later_cache_def hidden_cache_def lost_cache_def fixture_defs cache_defs
        mem_defs)
  have l6: "\<forall>fd del t full r rids.
                   user_change_id later_cache 7 < get_current_change_id later_cache
                 \<and> fetch_delta later_cache 7 (user_change_id later_cache 7) = Inr (fd, del, t)
                 \<and> (''motion'', full) \<in> set fd
                 \<and> restrict_elements hidden 7 full = Inr r
                 \<and> element_ids r = Inr rids \<longrightarrow>
                   (1::int) \<notin> set rids"
    by (auto simp: hidden_def)
  have sn2: "snapshot_loop (user_store 7 (backend later_refreshed_cache)) [] = Inr []"
    by (simp add: later_refreshed_cache_def later_cache_def hidden_cache_def lost_cache_def
        user_store_def is_config_key_def)
  from visibility_loss_deleted [OF h1 h2 h3 h4 h5 h6 h7 h8 h9 h10 h11,
      where change_id = 101 and max_change_id = "- 1" and changed = "[]"
        and deleted = "[''motion:1'']" and self'' = hidden_cache
        and later = later_cache and later' = later_refreshed_cache]
    h1 h2 h3 h4 h5 h6 h8 h9 h10 k lr g old rl sn l1 l2 l3 l4 l5 l6 sn2
  show ?thesis by (simp add: in_range_def)
qed

text \<open>
  C5 as stated fails, in two ways. First: user 7 is behind the low-water mark, so the
  refresh falls back to all full data and purges the user's store. The filter no longer
  returns \<open>motion:2\<close>, which the user had seen: the id is appended to the deletion list.
  The change index does not record \<open>motion:2\<close>, so the restricted read that performs the
  refresh, asked for the changes since 101, reports no deletion, and so does the same
  read repeated; a read with change id 0 returns the snapshot and never reports a
  deletion. Second: the filter does not return \<open>motion:1\<close> in one refresh, and the id is
  deleted from the store of user 7; after both elements were changed the filter returns
  it in the next refresh, and the restricted snapshot contains the element again.
\<close>

theorem visibility_loss_unreported:
  "map_of (user_store 7 (backend stale_cache)) ''motion:2'' = Some (Dumps motion_2)
   \<and> get_full_data stale_cache (user_change_id stale_cache 7 + 1) (- 1)
       = Inl (RuntimeError (ChangeIdTooLow 51 101))
   \<and> fetch_delta stale_cache 7 (user_change_id stale_cache 7)
       = Inr ([(''motion'', [motion_B, motion_2])], [],
              (backend stale_cache)\<lparr>restricted_data := []\<rparr>)
   \<and> restrict_elements first_only 7 [motion_B, motion_2] = Inr [motion_B]
   \<and> restrict_loop stale_cache 7 [(''motion'', [motion_B, motion_2])] [] []
       = Inr ([(''motion:1'', Dumps motion_B)], [''motion:2''])
   \<and> update_restricted_data stale_cache 7 = Some (Inr (), resynced_cache)
   \<and> get_restricted_data stale_cache 7 101 (- 1)
       = Some (Inr ([(''motion'', [motion_B])], []), resynced_cache)
   \<and> get_restricted_data resynced_cache 7 101 (- 1)
       = Some (Inr ([(''motion'', [motion_B])], []), resynced_cache)
   \<and> get_restricted_data resynced_cache 7 0 (- 1)
       = Some (Inr ([(''motion'', [motion_B])], []), resynced_cache)
   \<and> fetch_delta regain_cache 7 (user_change_id regain_cache 7)
       = Inr ([(''motion'', [motion_B])], [], backend regain_cache)
   \<and> restrict_elements pair_only 7 [motion_B] = Inr []
   \<and> restrict_loop regain_cache 7 [(''motion'', [motion_B])] [] [] = Inr ([], [''motion:1''])
   \<and> update_restricted_data regain_cache 7 = Some (Inr (), regain_hidden_cache)
   \<and> map_of (user_store 7 (backend regain_hidden_cache)) ''motion:1'' = None
   \<and> change_elements regain_hidden_cache
        [(''motion:1'', Some motion_A), (''motion:2'', Some motion_2)]
       = (Inr 102, regain_changed_cache)
   \<and> get_all_restricted_data regain_changed_cache 7
       = Some (Inr [(''motion'', [motion_2, motion_A])], regain_shown_cache)"
  by (simp add: stale_defs regain_defs fixture_defs cache_defs mem_defs get_restricted_data_def
      change_elements_def str_int_1 str_int_2 str_int_7)


end
